theory Spec2Isabelle
  imports Main "HOL-Library.AList"
begin

section \<open>Values crossing the JavaScript boundary\<close>

text \<open>
  Tool inputs are typed \<^verbatim>\<open>unknown\<close> in the source; they are JSON values. Numbers are
  carried as integers: no function of the client computes on them.
\<close>

datatype json =
    JNull
  | JBool bool
  | JNumber int
  | JString string
  | JArray "json list"
  | JObject "(string \<times> json) list"

text \<open>The object literal \<^verbatim>\<open>{}\<close>.\<close>

definition empty_object :: json where
  "empty_object = JObject []"

text \<open>
  A thrown value is either an instance of \<^verbatim>\<open>Error\<close> (with its message; \<^verbatim>\<open>SyntaxError\<close> and
  \<^verbatim>\<open>ZodError\<close> are subclasses) or any other value.
\<close>

datatype thrown = JsError string | NonError json

text \<open>How a \<^verbatim>\<open>Promise<string>\<close> settles.\<close>

datatype settled = Resolved string | Rejected thrown

text \<open>
  \<^verbatim>\<open>JSON.parse\<close> is a builtin of the host: every function that uses it takes it as the
  parameter \<open>JSON_parse\<close>, where \<open>Inl m\<close> is a \<^verbatim>\<open>SyntaxError\<close> with message \<open>m\<close>.
\<close>

type_synonym json_parser = "string \<Rightarrow> string + json"

definition newline :: string where
  "newline = [CHR 0x0A]"

section \<open>Content blocks, messages, stream events\<close>

text \<open>\<^verbatim>\<open>TextBlockParam | ToolUseBlockParam\<close>: the blocks of an assistant turn.\<close>

datatype block =
    TextBlock string
  | ToolUseBlock string string json  \<comment> \<open>id, name, input\<close>

fun isToolUse :: "block \<Rightarrow> bool" where
  "isToolUse (ToolUseBlock i n inp) = True"
| "isToolUse (TextBlock t) = False"

fun block_id :: "block \<Rightarrow> string" where
  "block_id (ToolUseBlock i n inp) = i"
| "block_id (TextBlock t) = []"

text \<open>\<^verbatim>\<open>ToolResultBlockParam\<close>; \<open>is_error\<close> is \<open>None\<close> where the source leaves the field out.\<close>

datatype tool_result =
  ToolResult (tool_use_id: string) (result_content: string) (is_error: "bool option")

datatype role = User | Assistant

text \<open>
  \<^verbatim>\<open>MessageParam.content\<close>: a plain string (as callers write it), the blocks of an assistant
  turn, or the tool results sent back in a user message.
\<close>

datatype message_content =
    StringContent string
  | ResponseBlocks "block list"
  | ResultBlocks "tool_result list"

record message =
  role :: role
  content :: message_content

datatype delta = InputJsonDelta string | TextDelta string

text \<open>
  \<^verbatim>\<open>RawMessageStreamEvent\<close>. The \<^verbatim>\<open>switch\<close> of \<^verbatim>\<open>stream\<close> has cases for the three
  content-block events only and no default, so the three message events fall through.
\<close>

datatype event =
    MessageStart
  | MessageDelta
  | MessageStop
  | ContentBlockStart block
  | ContentBlockDelta delta
  | ContentBlockStop

section \<open>The client and its tool registry\<close>

record tool =
  name :: string
  input_schema :: json
  description :: "string option"

text \<open>
  A handler \<^verbatim>\<open>(input: unknown) => Promise<string>\<close> may have effects (the example of the
  source rolls a die), so it reads and returns a world \<open>'w\<close> besides settling.
\<close>

type_synonym 'w handler = "json \<Rightarrow> 'w \<Rightarrow> settled \<times> 'w"

text \<open>
  \<^verbatim>\<open>class ClaudeClient\<close>. The field \<open>client\<close> is the provider's transport
  \<^verbatim>\<open>this.client.messages.create\<close>: from the tool list and the history to the events of one
  turn, or a thrown transport failure. \<open>toolHandlers\<close> is a JavaScript \<^verbatim>\<open>Map\<close>, kept as
  an association list in insertion order. The \<^verbatim>\<open>options\<close> field only parameterises the
  transport and is part of it here.
\<close>

record 'w ClaudeClient =
  client :: "tool list \<Rightarrow> message list \<Rightarrow> thrown + event list"
  tools :: "tool list"
  toolHandlers :: "(string \<times> 'w handler) list"

text \<open>The constructor: no tools, an empty handler map.\<close>

definition new_client ::
  "(tool list \<Rightarrow> message list \<Rightarrow> thrown + event list) \<Rightarrow> 'w ClaudeClient" where
  "new_client transport = \<lparr>client = transport, tools = [], toolHandlers = []\<rparr>"

text \<open>
  \<^verbatim>\<open>addTool\<close>: \<^verbatim>\<open>this.tools.push(tool); this.toolHandlers.set(tool.name, handler)\<close>.
  \<^verbatim>\<open>Map.set\<close> replaces the value of a key that is present and appends a new key otherwise,
  which is \<^const>\<open>AList.update\<close>.
\<close>

definition addTool :: "tool \<Rightarrow> 'w handler \<Rightarrow> 'w ClaudeClient \<Rightarrow> 'w ClaudeClient" where
  "addTool t handler c =
     c\<lparr>tools := tools c @ [t],
       toolHandlers := AList.update (name t) handler (toolHandlers c)\<rparr>"

text \<open>
  A Zod schema, as far as the client uses it: the JSON schema that
  \<^verbatim>\<open>zodToJsonSchema(schema, "input").definitions?.input\<close> finds (if any), its description,
  and \<^verbatim>\<open>schema.parse\<close>, where \<open>Inl m\<close> is a thrown \<^verbatim>\<open>ZodError\<close> with message \<open>m\<close>.
\<close>

record 't zod_schema =
  json_schema :: "json option"
  zod_description :: "string option"
  zod_parse :: "json \<Rightarrow> string + 't"

definition zodToInputSchema :: "'t zod_schema \<Rightarrow> thrown + json" where
  "zodToInputSchema schema =
     (case json_schema schema of
        None \<Rightarrow> Inl (JsError ''Failed to convert Zod schema to JSON schema'')
      | Some jsonSchema \<Rightarrow> Inr jsonSchema)"

text \<open>The wrapper \<^verbatim>\<open>async (input) => handler(schema.parse(input))\<close> that is registered.\<close>

definition zodHandler :: "'t zod_schema \<Rightarrow> ('t \<Rightarrow> 'w \<Rightarrow> settled \<times> 'w) \<Rightarrow> 'w handler" where
  "zodHandler schema handler =
     (\<lambda>inp w. case zod_parse schema inp of
                 Inl m \<Rightarrow> (Rejected (JsError m), w)
               | Inr v \<Rightarrow> handler v w)"

definition addZodTool ::
  "string \<Rightarrow> 't zod_schema \<Rightarrow> ('t \<Rightarrow> 'w \<Rightarrow> settled \<times> 'w) \<Rightarrow> 'w ClaudeClient
     \<Rightarrow> thrown + 'w ClaudeClient" where
  "addZodTool n schema handler c =
     (case zodToInputSchema schema of
        Inl e \<Rightarrow> Inl e
      | Inr js \<Rightarrow>
          Inr (addTool \<lparr>name = n, input_schema = js, description = zod_description schema\<rparr>
                 (zodHandler schema handler) c))"

definition createStream :: "'w ClaudeClient \<Rightarrow> message list \<Rightarrow> thrown + event list" where
  "createStream c messages = client c (tools c) messages"

section \<open>Assembling one turn\<close>

text \<open>
  The locals of one iteration of the outer loop. \<^verbatim>\<open>pendingBlock\<close> and the entries of
  \<^verbatim>\<open>responseBlocks\<close> are references to the block objects that the block-start events
  carried, and finalizing writes through the reference. So the objects live in \<open>heap\<close>
  (one per block-start event, in order of arrival) and the two locals hold indices into it.
  \<open>yielded\<close> collects what the generator has yielded so far.
\<close>

record asm =
  heap :: "block list"
  pendingBlock :: "nat option"
  responseBlocks :: "nat list"
  pendingText :: string
  yielded :: "string list"

definition init_asm :: asm where
  "init_asm = \<lparr>heap = [], pendingBlock = None, responseBlocks = [], pendingText = [], yielded = []\<rparr>"

text \<open>The body of the \<^verbatim>\<open>for await\<close> loop: one event.\<close>

fun step :: "json_parser \<Rightarrow> asm \<Rightarrow> event \<Rightarrow> thrown + asm" where
  "step JSON_parse s (ContentBlockStart b) =
     Inr (s\<lparr>heap := heap s @ [b], pendingBlock := Some (length (heap s))\<rparr>)"
| "step JSON_parse s ContentBlockStop =
     (case pendingBlock s of
        None \<Rightarrow> Inl (JsError ''Unexpected content_block_stop'')
      | Some a \<Rightarrow>
          (case heap s ! a of
             TextBlock t \<Rightarrow>
               Inr (s\<lparr>heap := (heap s)[a := TextBlock (pendingText s)],
                      yielded := yielded s @ [newline],
                      pendingText := [],
                      responseBlocks := responseBlocks s @ [a]\<rparr>)
           | ToolUseBlock i n inp \<Rightarrow>
               (if pendingText s = [] then
                  Inr (s\<lparr>heap := (heap s)[a := ToolUseBlock i n empty_object],
                         pendingText := [],
                         responseBlocks := responseBlocks s @ [a]\<rparr>)
                else
                  (case JSON_parse (pendingText s) of
                     Inl m \<Rightarrow> Inl (JsError m)
                   | Inr v \<Rightarrow>
                       Inr (s\<lparr>heap := (heap s)[a := ToolUseBlock i n v],
                              pendingText := [],
                              responseBlocks := responseBlocks s @ [a]\<rparr>)))))"
| "step JSON_parse s (ContentBlockDelta (InputJsonDelta partial_json)) =
     Inr (s\<lparr>pendingText := pendingText s @ partial_json\<rparr>)"
| "step JSON_parse s (ContentBlockDelta (TextDelta t)) =
     Inr (s\<lparr>pendingText := pendingText s @ t, yielded := yielded s @ [t]\<rparr>)"
| "step JSON_parse s MessageStart = Inr s"
| "step JSON_parse s MessageDelta = Inr s"
| "step JSON_parse s MessageStop = Inr s"

text \<open>
  The \<^verbatim>\<open>for await\<close> loop over the events of a turn. A throw leaves the loop with the
  state reached so far: what was yielded before it has already gone to the caller.
\<close>

fun consume :: "json_parser \<Rightarrow> asm \<Rightarrow> event list \<Rightarrow> asm \<times> thrown option" where
  "consume JSON_parse s [] = (s, None)"
| "consume JSON_parse s (chunk # chunks) =
     (case step JSON_parse s chunk of
        Inl e \<Rightarrow> (s, Some e)
      | Inr s' \<Rightarrow> consume JSON_parse s' chunks)"

text \<open>The blocks that \<^verbatim>\<open>responseBlocks\<close> refers to, read when the event loop is over.\<close>

definition finalized :: "asm \<Rightarrow> block list" where
  "finalized s = map (\<lambda>a. heap s ! a) (responseBlocks s)"

section \<open>Tool dispatch\<close>

text \<open>
  The loop \<^verbatim>\<open>for (const block of responseBlocks)\<close>, with \<^verbatim>\<open>resultBlocks\<close> as the
  accumulator and the handlers' world threaded through.
\<close>

fun dispatch ::
  "(string \<times> 'w handler) list \<Rightarrow> block list \<Rightarrow> tool_result list \<Rightarrow> 'w
     \<Rightarrow> (thrown + tool_result list) \<times> 'w" where
  "dispatch hs [] resultBlocks w = (Inr resultBlocks, w)"
| "dispatch hs (TextBlock t # blocks) resultBlocks w = dispatch hs blocks resultBlocks w"
| "dispatch hs (ToolUseBlock i n inp # blocks) resultBlocks w =
     (case map_of hs n of
        None \<Rightarrow> (Inl (JsError (''No handler for tool '' @ n)), w)
      | Some handler \<Rightarrow>
          (case handler inp w of
             (Resolved toolResult, w') \<Rightarrow>
               dispatch hs blocks (resultBlocks @ [ToolResult i toolResult None]) w'
           | (Rejected (JsError m), w') \<Rightarrow>
               dispatch hs blocks (resultBlocks @ [ToolResult i m (Some True)]) w'
           | (Rejected (NonError v), w') \<Rightarrow> (Inl (NonError v), w')))"

section \<open>The conversation loop\<close>

datatype status = Finished | Failed thrown | OutOfFuel

text \<open>
  What a call of \<^verbatim>\<open>stream\<close> leaves behind, for a consumer that pulls the generator to its
  end: the increments yielded, the caller's \<^verbatim>\<open>messages\<close> array (mutated in place, so
  visible also after a throw), the histories sent to the provider (one per network turn
  requested), the handlers' world, and how the call ended.
\<close>

record 'w outcome =
  yields :: "string list"
  history :: "message list"
  requests :: "message list list"
  world :: 'w
  status :: status

definition after_turn :: "string list \<Rightarrow> message list \<Rightarrow> 'w outcome \<Rightarrow> 'w outcome" where
  "after_turn ys sent r = r\<lparr>yields := ys @ yields r, requests := sent # requests r\<rparr>"

text \<open>
  \<^verbatim>\<open>while (true)\<close> has no bound, so the loop runs on fuel: one unit per turn, and
  \<^const>\<open>OutOfFuel\<close> where the source would request one more turn.
\<close>

fun stream ::
  "nat \<Rightarrow> json_parser \<Rightarrow> 'w ClaudeClient \<Rightarrow> message list \<Rightarrow> 'w \<Rightarrow> 'w outcome" where
  "stream 0 JSON_parse c messages w =
     \<lparr>yields = [], history = messages, requests = [], world = w, status = OutOfFuel\<rparr>"
| "stream (Suc fuel) JSON_parse c messages w =
     (case createStream c messages of
        Inl e \<Rightarrow>
          \<lparr>yields = [], history = messages, requests = [messages], world = w,
           status = Failed e\<rparr>
      | Inr response \<Rightarrow>
          (case consume JSON_parse init_asm response of
             (s, Some e) \<Rightarrow>
               \<lparr>yields = yielded s, history = messages, requests = [messages], world = w,
                status = Failed e\<rparr>
           | (s, None) \<Rightarrow>
               (let messages1 =
                      messages @ [\<lparr>role = Assistant, content = ResponseBlocks (finalized s)\<rparr>]
                in case dispatch (toolHandlers c) (finalized s) [] w of
                     (Inl e, w') \<Rightarrow>
                       \<lparr>yields = yielded s, history = messages1, requests = [messages],
                        world = w', status = Failed e\<rparr>
                   | (Inr resultBlocks, w') \<Rightarrow>
                       (if length resultBlocks = 0 then
                          \<lparr>yields = yielded s, history = messages1, requests = [messages],
                           world = w', status = Finished\<rparr>
                        else
                          after_turn (yielded s) messages
                            (stream fuel JSON_parse c
                               (messages1 @ [\<lparr>role = User, content = ResultBlocks resultBlocks\<rparr>])
                               w')))))"

section \<open>Example data\<close>

text \<open>A handler that always answers \<open>4\<close> and counts its calls in the world.\<close>

definition roll_dice_handler :: "nat handler" where
  "roll_dice_handler = (\<lambda>inp w. (Resolved ''4'', Suc w))"

definition example_handlers :: "(string \<times> nat handler) list" where
  "example_handlers = [(''roll_dice'', roll_dice_handler)]"

definition example_blocks :: "block list" where
  "example_blocks =
     [TextBlock ''rolling'',
      ToolUseBlock ''toolu_1'' ''roll_dice'' (JObject [(''sides'', JNumber 6)]),
      ToolUseBlock ''toolu_2'' ''roll_dice'' (JObject [(''sides'', JNumber 20)])]"

section \<open>An example conversation\<close>

text \<open>
  The provider first asks for \<open>roll_dice\<close> with input \<^verbatim>\<open>{"sides":6}\<close>, then answers
  in text. The parser accepts exactly that input text.
\<close>

definition sides_json :: string where
  "sides_json = ''{'' @ [CHR 0x22] @ ''sides'' @ [CHR 0x22] @ '':6}''"

definition example_parse :: json_parser where
  "example_parse txt =
     (if txt = sides_json then Inr (JObject [(''sides'', JNumber 6)])
      else Inl ''Unexpected token'')"

definition tool_turn :: "event list" where
  "tool_turn =
     [MessageStart,
      ContentBlockStart (ToolUseBlock ''toolu_1'' ''roll_dice'' (JObject [])),
      ContentBlockDelta (InputJsonDelta ''{''),
      ContentBlockDelta (InputJsonDelta ([CHR 0x22] @ ''sides'' @ [CHR 0x22] @ '':6}'')),
      ContentBlockStop,
      MessageDelta,
      MessageStop]"

definition text_turn :: "event list" where
  "text_turn =
     [MessageStart,
      ContentBlockStart (TextBlock []),
      ContentBlockDelta (TextDelta ''You rolled ''),
      ContentBlockDelta (TextDelta ''4''),
      ContentBlockStop,
      MessageDelta,
      MessageStop]"

definition example_transport :: "tool list \<Rightarrow> message list \<Rightarrow> thrown + event list" where
  "example_transport ts messages =
     (if length messages = 1 then Inr tool_turn else Inr text_turn)"

definition roll_dice_tool :: tool where
  "roll_dice_tool = \<lparr>name = ''roll_dice'', input_schema = JObject [], description = None\<rparr>"

definition example_client :: "nat ClaudeClient" where
  "example_client = addTool roll_dice_tool roll_dice_handler (new_client example_transport)"

definition hi :: "message list" where
  "hi = [\<lparr>role = User, content = StringContent ''hi''\<rparr>]"

definition tool_use_answered :: "message list" where
  "tool_use_answered =
     [\<lparr>role = Assistant,
       content = ResponseBlocks
         [ToolUseBlock ''toolu_1'' ''roll_dice'' (JObject [(''sides'', JNumber 6)])]\<rparr>,
      \<lparr>role = User, content = ResultBlocks [ToolResult ''toolu_1'' ''4'' None]\<rparr>]"

definition tool_turn_asm :: asm where
  "tool_turn_asm =
     \<lparr>heap = [ToolUseBlock ''toolu_1'' ''roll_dice'' (JObject [(''sides'', JNumber 6)])],
      pendingBlock = Some 0, responseBlocks = [0], pendingText = [], yielded = []\<rparr>"

definition text_turn_asm :: asm where
  "text_turn_asm =
     \<lparr>heap = [TextBlock ''You rolled 4''],
      pendingBlock = Some 0, responseBlocks = [0], pendingText = [],
      yielded = [''You rolled '', ''4'', newline]\<rparr>"

section \<open>Vocabulary for statements about event sequences\<close>

text \<open>What an event adds to \<^verbatim>\<open>pendingText\<close>: the payload of a delta, nothing otherwise.\<close>

fun payload :: "event \<Rightarrow> string" where
  "payload (ContentBlockDelta (InputJsonDelta partial_json)) = partial_json"
| "payload (ContentBlockDelta (TextDelta t)) = t"
| "payload e = []"

text \<open>What the events between two block-stops make the generator yield: the text deltas.\<close>

fun increments :: "event list \<Rightarrow> string list" where
  "increments [] = []"
| "increments (ContentBlockDelta (TextDelta t) # es) = t # increments es"
| "increments (e # es) = increments es"

text \<open>Events inside a block: neither a block-start nor a block-stop.\<close>

fun inside :: "event \<Rightarrow> bool" where
  "inside (ContentBlockStart b) = False"
| "inside ContentBlockStop = False"
| "inside e = True"

section \<open>A provider that only answers in text\<close>

definition text_client :: "unit ClaudeClient" where
  "text_client = new_client (\<lambda>ts messages. Inr text_turn)"

section \<open>Malformed event sequences\<close>

text \<open>A second block-stop after a text block has been finalized.\<close>

definition double_stop_turn :: "event list" where
  "double_stop_turn =
     [ContentBlockStart (TextBlock []),
      ContentBlockDelta (TextDelta ''hi''),
      ContentBlockStop,
      ContentBlockStop]"

definition double_stop_client :: "unit ClaudeClient" where
  "double_stop_client = new_client (\<lambda>ts messages. Inr double_stop_turn)"

text \<open>A block that is never stopped, followed by a complete block.\<close>

definition unstopped :: "event list" where
  "unstopped = [ContentBlockStart (TextBlock []), ContentBlockDelta (TextDelta ''x'')]"

definition following :: "event list" where
  "following = [ContentBlockDelta (TextDelta ''y'')]"

section \<open>References stay inside the heap\<close>

definition refs_ok :: "asm \<Rightarrow> bool" where
  "refs_ok s =
     ((case pendingBlock s of None \<Rightarrow> True | Some a \<Rightarrow> a < length (heap s))
      \<and> list_all (\<lambda>a. a < length (heap s)) (responseBlocks s))"

section \<open>Tool-use blocks with no input text and with malformed input text\<close>

definition no_input_pre :: "event list" where
  "no_input_pre =
     [MessageStart, ContentBlockStart (ToolUseBlock ''toolu_1'' ''roll_dice'' JNull)]"

definition no_input_client :: "unit ClaudeClient" where
  "no_input_client =
     new_client (\<lambda>ts messages. Inr (no_input_pre @ ContentBlockStop # [MessageStop]))"

definition bad_input_pre :: "event list" where
  "bad_input_pre =
     [MessageStart,
      ContentBlockStart (ToolUseBlock ''toolu_1'' ''roll_dice'' (JObject [])),
      ContentBlockDelta (InputJsonDelta ''{'')]"

definition bad_input_client :: "unit ClaudeClient" where
  "bad_input_client =
     new_client (\<lambda>ts messages. Inr (bad_input_pre @ ContentBlockStop # [MessageStop]))"

text \<open>The events of \<^const>\<open>tool_turn\<close> before its block-stop.\<close>

definition good_input_pre :: "event list" where
  "good_input_pre =
     [MessageStart,
      ContentBlockStart (ToolUseBlock ''toolu_1'' ''roll_dice'' (JObject [])),
      ContentBlockDelta (InputJsonDelta ''{''),
      ContentBlockDelta (InputJsonDelta ([CHR 0x22] @ ''sides'' @ [CHR 0x22] @ '':6}''))]"

section \<open>Handlers that fail, and a tool nobody registered\<close>

definition failing_handler :: "nat handler" where
  "failing_handler = (\<lambda>inp w. (Rejected (JsError ''division by zero''), Suc w))"

definition crashing_handler :: "nat handler" where
  "crashing_handler = (\<lambda>inp w. (Rejected (NonError (JString ''boom'')), Suc w))"

definition divide_tool :: tool where
  "divide_tool = \<lparr>name = ''divide'', input_schema = JObject [], description = None\<rparr>"

definition divide_turn :: "event list" where
  "divide_turn =
     [MessageStart,
      ContentBlockStart (ToolUseBlock ''toolu_1'' ''divide'' (JObject [])),
      ContentBlockStop,
      MessageStop]"

definition divide_transport :: "tool list \<Rightarrow> message list \<Rightarrow> thrown + event list" where
  "divide_transport ts messages =
     (if length messages = 1 then Inr divide_turn else Inr text_turn)"

definition divide_asm :: asm where
  "divide_asm =
     \<lparr>heap = [ToolUseBlock ''toolu_1'' ''divide'' empty_object], pendingBlock = Some 0,
      responseBlocks = [0], pendingText = [], yielded = []\<rparr>"

definition failing_client :: "nat ClaudeClient" where
  "failing_client = addTool divide_tool failing_handler (new_client divide_transport)"

definition crashing_client :: "nat ClaudeClient" where
  "crashing_client = addTool divide_tool crashing_handler (new_client divide_transport)"

definition divide_answered :: "message list" where
  "divide_answered =
     [\<lparr>role = Assistant,
       content = ResponseBlocks [ToolUseBlock ''toolu_1'' ''divide'' empty_object]\<rparr>,
      \<lparr>role = User,
       content = ResultBlocks [ToolResult ''toolu_1'' ''division by zero'' (Some True)]\<rparr>]"

text \<open>The same turn sent to a client that has registered no tool.\<close>

definition bare_client :: "nat ClaudeClient" where
  "bare_client = new_client divide_transport"

section \<open>A tool registered through a schema\<close>

text \<open>
  The schema \<^verbatim>\<open>z.object({ sides: z.number() })\<close> on the inputs used here, and a handler
  that records in the world the values it is called with.
\<close>

fun sides_parse :: "json \<Rightarrow> string + int" where
  "sides_parse (JObject [(k, JNumber v)]) = (if k = ''sides'' then Inr v else Inl ''Required'')"
| "sides_parse j = Inl ''Required''"

definition sides_schema :: "int zod_schema" where
  "sides_schema =
     \<lparr>json_schema = Some (JObject [(''type'', JString ''object'')]),
      zod_description = Some ''Roll a dice with the given number of sides'',
      zod_parse = sides_parse\<rparr>"

definition logging_handler :: "int \<Rightarrow> int list \<Rightarrow> settled \<times> int list" where
  "logging_handler sides w = (Resolved ''4'', w @ [sides])"

definition zod_client :: "int list ClaudeClient" where
  "zod_client =
     addTool \<lparr>name = ''roll_dice'',
              input_schema = JObject [(''type'', JString ''object'')],
              description = Some ''Roll a dice with the given number of sides''\<rparr>
       (zodHandler sides_schema logging_handler) (new_client example_transport)"

section \<open>Turns of text blocks\<close>

text \<open>
  The events of consecutive text blocks, each given by the text its block-start declares
  and by its text deltas.
\<close>

fun text_blocks_events :: "(string \<times> string list) list \<Rightarrow> event list" where
  "text_blocks_events [] = []"
| "text_blocks_events ((t0, ds) # bs) =
     ContentBlockStart (TextBlock t0)
     # map (\<lambda>d. ContentBlockDelta (TextDelta d)) ds
     @ ContentBlockStop # text_blocks_events bs"

text \<open>A provider that answers in two text blocks, and one that answers with no block.\<close>

definition two_text_turn :: "event list" where
  "two_text_turn =
     [MessageStart,
      ContentBlockStart (TextBlock []),
      ContentBlockDelta (TextDelta ''a''),
      ContentBlockStop,
      ContentBlockStart (TextBlock []),
      ContentBlockDelta (TextDelta ''b''),
      ContentBlockStop,
      MessageDelta,
      MessageStop]"

definition two_text_client :: "unit ClaudeClient" where
  "two_text_client = new_client (\<lambda>ts messages. Inr two_text_turn)"

definition empty_turn :: "event list" where
  "empty_turn = [MessageStart, MessageDelta, MessageStop]"

definition empty_client :: "unit ClaudeClient" where
  "empty_client = new_client (\<lambda>ts messages. Inr empty_turn)"

section \<open>A provider that looks at the tool list\<close>

text \<open>A transport that refuses a request whose tool list names a tool twice.\<close>

definition strict_transport :: "tool list \<Rightarrow> message list \<Rightarrow> thrown + event list" where
  "strict_transport ts messages =
     (if distinct (map name ts) then Inr text_turn
      else Inl (JsError ''tools: Tool names must be unique.''))"

section \<open>Tool dispatch: one result per tool use\<close>

lemma dispatch_append:
  "dispatch hs (xs @ ys) acc w =
     (case dispatch hs xs acc w of
        (Inl e, w') \<Rightarrow> (Inl e, w')
      | (Inr acc', w') \<Rightarrow> dispatch hs ys acc' w')"
  by (induction hs xs acc w rule: dispatch.induct)
     (auto split: option.splits settled.splits thrown.splits prod.splits)

lemma dispatch_ids:
  "dispatch hs blocks acc w = (Inr rs, w') \<Longrightarrow>
     map tool_use_id rs = map tool_use_id acc @ map block_id (filter isToolUse blocks)"
  by (induction hs blocks acc w rule: dispatch.induct)
     (auto split: option.splits settled.splits thrown.splits prod.splits)

lemma dispatch_returns:
  fixes hs :: "(string \<times> 'w handler) list"
  assumes "\<forall>i n inp. ToolUseBlock i n inp \<in> set blocks \<longrightarrow>
             (\<exists>h. map_of hs n = Some h \<and> (\<forall>w v. fst (h inp w) \<noteq> Rejected (NonError v)))"
  shows "\<exists>rs w'. dispatch hs blocks acc w = (Inr rs, w')"
  using assms
proof (induction blocks arbitrary: acc w)
  case Nil
  then show ?case by simp
next
  case (Cons b blocks)
  from Cons.prems have rest: "\<forall>i n inp. ToolUseBlock i n inp \<in> set blocks \<longrightarrow>
             (\<exists>h. map_of hs n = Some h \<and> (\<forall>w v. fst (h inp w) \<noteq> Rejected (NonError v)))"
    by simp
  note IH = Cons.IH[OF rest]
  show ?case
  proof (cases b)
    case (TextBlock t)
    with IH show ?thesis by simp
  next
    case (ToolUseBlock i n inp)
    with Cons.prems
    have "\<exists>h. map_of hs n = Some h \<and> (\<forall>w v. fst (h inp w) \<noteq> Rejected (NonError v))"
      by simp
    then obtain h where h: "map_of hs n = Some h"
      and ok: "\<forall>w v. fst (h inp w) \<noteq> Rejected (NonError v)"
      by blast
    obtain r w1 where call: "h inp w = (r, w1)" by (cases "h inp w")
    show ?thesis
    proof (cases r)
      case (Resolved toolResult)
      with ToolUseBlock h call IH show ?thesis by simp
    next
      case (Rejected e)
      show ?thesis
      proof (cases e)
        case (JsError m)
        with Rejected ToolUseBlock h call IH show ?thesis by simp
      next
        case (NonError v)
        with Rejected call ok have False by (metis fst_conv)
        then show ?thesis ..
      qed
    qed
  qed
qed

text \<open>
  C1. Dispatch over the finalized blocks of a turn returns its results whenever every
  tool-use block names a registered handler and no handler throws a value that is not an
  \<^verbatim>\<open>Error\<close>; and whenever it returns, there are exactly as many results as tool-use
  blocks, and the results carry the ids of the tool-use blocks, in the order of the blocks.
\<close>

theorem dispatch_one_result_per_tool_use:
  fixes hs :: "(string \<times> 'w handler) list"
  shows "((\<forall>i n inp. ToolUseBlock i n inp \<in> set blocks \<longrightarrow>
             (\<exists>h. map_of hs n = Some h \<and> (\<forall>w v. fst (h inp w) \<noteq> Rejected (NonError v))))
          \<longrightarrow> (\<exists>rs w'. dispatch hs blocks [] w = (Inr rs, w')))
       \<and> (\<forall>rs w'. dispatch hs blocks [] w = (Inr rs, w') \<longrightarrow>
             length rs = length (filter isToolUse blocks)
           \<and> map tool_use_id rs = map block_id (filter isToolUse blocks))"
proof (intro conjI impI allI)
  assume "\<forall>i n inp. ToolUseBlock i n inp \<in> set blocks \<longrightarrow>
             (\<exists>h. map_of hs n = Some h \<and> (\<forall>w v. fst (h inp w) \<noteq> Rejected (NonError v)))"
  then show "\<exists>rs w'. dispatch hs blocks [] w = (Inr rs, w')"
    by (rule dispatch_returns)
next
  fix rs w'
  assume d: "dispatch hs blocks [] w = (Inr rs, w')"
  from dispatch_ids[OF d]
  show ids: "map tool_use_id rs = map block_id (filter isToolUse blocks)" by simp
  from arg_cong[OF ids, of length]
  show "length rs = length (filter isToolUse blocks)" by simp
qed

theorem dispatch_one_result_per_tool_use_witness:
  "(\<exists>rs w'. dispatch example_handlers example_blocks [] (0::nat) = (Inr rs, w'))
   \<and> dispatch example_handlers example_blocks [] (0::nat) =
       (Inr [ToolResult ''toolu_1'' ''4'' None, ToolResult ''toolu_2'' ''4'' None], 2)
   \<and> length [ToolResult ''toolu_1'' ''4'' None, ToolResult ''toolu_2'' ''4'' None] =
       length (filter isToolUse example_blocks)
   \<and> map tool_use_id [ToolResult ''toolu_1'' ''4'' None, ToolResult ''toolu_2'' ''4'' None] =
       map block_id (filter isToolUse example_blocks)"
proof -
  have registered: "\<forall>i n inp. ToolUseBlock i n inp \<in> set example_blocks \<longrightarrow>
      (\<exists>h. map_of example_handlers n = Some h
         \<and> (\<forall>w v. fst (h inp w) \<noteq> Rejected (NonError v)))"
    by (auto simp: example_blocks_def example_handlers_def roll_dice_handler_def)
  have d: "dispatch example_handlers example_blocks [] (0::nat) =
       (Inr [ToolResult ''toolu_1'' ''4'' None, ToolResult ''toolu_2'' ''4'' None], 2)"
    by (simp add: example_handlers_def example_blocks_def roll_dice_handler_def)
  note inst = dispatch_one_result_per_tool_use[of example_blocks example_handlers 0]
  from inst[THEN conjunct1, THEN mp, OF registered]
    inst[THEN conjunct2, rule_format, OF d] d
  show ?thesis by simp
qed

section \<open>The conversation loop, one turn at a time\<close>


lemma stream_transport_fails:
  "createStream c messages = Inl e \<Longrightarrow>
     stream (Suc fuel) JSON_parse c messages w =
       \<lparr>yields = [], history = messages, requests = [messages], world = w, status = Failed e\<rparr>"
  by simp

lemma stream_assembly_fails:
  "createStream c messages = Inr response \<Longrightarrow>
   consume JSON_parse init_asm response = (s, Some e) \<Longrightarrow>
     stream (Suc fuel) JSON_parse c messages w =
       \<lparr>yields = yielded s, history = messages, requests = [messages], world = w,
        status = Failed e\<rparr>"
  by simp

lemma stream_dispatch_fails:
  "createStream c messages = Inr response \<Longrightarrow>
   consume JSON_parse init_asm response = (s, None) \<Longrightarrow>
   dispatch (toolHandlers c) (finalized s) [] w = (Inl e, w') \<Longrightarrow>
     stream (Suc fuel) JSON_parse c messages w =
       \<lparr>yields = yielded s,
        history = messages @ [\<lparr>role = Assistant, content = ResponseBlocks (finalized s)\<rparr>],
        requests = [messages], world = w', status = Failed e\<rparr>"
  by simp

lemma stream_no_results:
  "createStream c messages = Inr response \<Longrightarrow>
   consume JSON_parse init_asm response = (s, None) \<Longrightarrow>
   dispatch (toolHandlers c) (finalized s) [] w = (Inr [], w') \<Longrightarrow>
     stream (Suc fuel) JSON_parse c messages w =
       \<lparr>yields = yielded s,
        history = messages @ [\<lparr>role = Assistant, content = ResponseBlocks (finalized s)\<rparr>],
        requests = [messages], world = w', status = Finished\<rparr>"
  by simp

lemma stream_some_results:
  "createStream c messages = Inr response \<Longrightarrow>
   consume JSON_parse init_asm response = (s, None) \<Longrightarrow>
   dispatch (toolHandlers c) (finalized s) [] w = (Inr resultBlocks, w') \<Longrightarrow>
   resultBlocks \<noteq> [] \<Longrightarrow>
     stream (Suc fuel) JSON_parse c messages w =
       after_turn (yielded s) messages
         (stream fuel JSON_parse c
            (messages @ [\<lparr>role = Assistant, content = ResponseBlocks (finalized s)\<rparr>,
                         \<lparr>role = User, content = ResultBlocks resultBlocks\<rparr>]) w')"
  by simp

lemma stream_first_request:
  "\<exists>rest. requests (stream (Suc fuel) JSON_parse c messages w) = messages # rest"
  by (simp add: after_turn_def Let_def split: sum.splits prod.splits option.splits)

lemma stream_history_extends:
  "\<exists>ext. history (stream fuel JSON_parse c messages w) = messages @ ext"
proof (induction fuel arbitrary: messages w)
  case 0
  then show ?case by simp
next
  case (Suc fuel)
  show ?case
  proof (cases "createStream c messages")
    case (Inl e)
    then show ?thesis by simp
  next
    case (Inr response)
    obtain s r where a: "consume JSON_parse init_asm response = (s, r)"
      by (cases "consume JSON_parse init_asm response")
    show ?thesis
    proof (cases r)
      case (Some e)
      with Inr a show ?thesis by simp
    next
      case None
      obtain d w' where d: "dispatch (toolHandlers c) (finalized s) [] w = (d, w')"
        by (cases "dispatch (toolHandlers c) (finalized s) [] w")
      show ?thesis
      proof (cases d)
        case (Inl e)
        with Inr a None d show ?thesis by simp
      next
        case (Inr resultBlocks)
        note res = this
        show ?thesis
        proof (cases "resultBlocks = []")
          case True
          with \<open>createStream c messages = Inr response\<close> a None d res show ?thesis by simp
        next
          case False
          from Suc.IH[of "messages @ [\<lparr>role = Assistant, content = ResponseBlocks (finalized s)\<rparr>,
                         \<lparr>role = User, content = ResultBlocks resultBlocks\<rparr>]" w']
          obtain ext where "history (stream fuel JSON_parse c
            (messages @ [\<lparr>role = Assistant, content = ResponseBlocks (finalized s)\<rparr>,
                         \<lparr>role = User, content = ResultBlocks resultBlocks\<rparr>]) w') =
             (messages @ [\<lparr>role = Assistant, content = ResponseBlocks (finalized s)\<rparr>,
                         \<lparr>role = User, content = ResultBlocks resultBlocks\<rparr>]) @ ext" by blast
          with \<open>createStream c messages = Inr response\<close> a None d res False
          show ?thesis by (simp add: after_turn_def)
        qed
      qed
    qed
  qed
qed

text \<open>
  C2. After the dispatch of a turn: with no tool result the call is over, having sent the
  one request of this turn, and the history has gained the assistant message; with one or
  more results the loop goes on with the history extended by the assistant message (all
  blocks of the turn) and a user message (all tool results), the next request carries
  exactly that history, and the caller's history keeps both messages from then on.
\<close>

theorem deciding_after_dispatch:
  assumes "createStream c messages = Inr response"
    and "consume JSON_parse init_asm response = (s, None)"
    and "dispatch (toolHandlers c) (finalized s) [] w = (Inr resultBlocks, w')"
  shows "(resultBlocks = [] \<longrightarrow>
            stream (Suc fuel) JSON_parse c messages w =
              \<lparr>yields = yielded s,
               history = messages @ [\<lparr>role = Assistant, content = ResponseBlocks (finalized s)\<rparr>],
               requests = [messages], world = w', status = Finished\<rparr>)
       \<and> (resultBlocks \<noteq> [] \<longrightarrow>
            stream (Suc fuel) JSON_parse c messages w =
              after_turn (yielded s) messages
                (stream fuel JSON_parse c
                   (messages @ [\<lparr>role = Assistant, content = ResponseBlocks (finalized s)\<rparr>,
                                \<lparr>role = User, content = ResultBlocks resultBlocks\<rparr>]) w')
          \<and> (\<exists>rest ext.
                requests (stream (Suc (Suc fuel)) JSON_parse c messages w) =
                  messages
                  # (messages @ [\<lparr>role = Assistant, content = ResponseBlocks (finalized s)\<rparr>,
                                 \<lparr>role = User, content = ResultBlocks resultBlocks\<rparr>])
                  # rest
              \<and> history (stream (Suc (Suc fuel)) JSON_parse c messages w) =
                  messages @ [\<lparr>role = Assistant, content = ResponseBlocks (finalized s)\<rparr>,
                              \<lparr>role = User, content = ResultBlocks resultBlocks\<rparr>] @ ext))"
proof (intro conjI impI)
  assume "resultBlocks = []"
  with assms show "stream (Suc fuel) JSON_parse c messages w =
              \<lparr>yields = yielded s,
               history = messages @ [\<lparr>role = Assistant, content = ResponseBlocks (finalized s)\<rparr>],
               requests = [messages], world = w', status = Finished\<rparr>"
    by (simp add: stream_no_results)
next
  assume "resultBlocks \<noteq> []"
  with assms show "stream (Suc fuel) JSON_parse c messages w =
              after_turn (yielded s) messages
                (stream fuel JSON_parse c
                   (messages @ [\<lparr>role = Assistant, content = ResponseBlocks (finalized s)\<rparr>,
                                \<lparr>role = User, content = ResultBlocks resultBlocks\<rparr>]) w')"
    by (rule stream_some_results)
next
  assume ne: "resultBlocks \<noteq> []"
  let ?next = "messages @ [\<lparr>role = Assistant, content = ResponseBlocks (finalized s)\<rparr>,
                           \<lparr>role = User, content = ResultBlocks resultBlocks\<rparr>]"
  have unfold: "stream (Suc (Suc fuel)) JSON_parse c messages w =
      after_turn (yielded s) messages (stream (Suc fuel) JSON_parse c ?next w')"
    using assms ne by (rule stream_some_results)
  obtain rest where r: "requests (stream (Suc fuel) JSON_parse c ?next w') = ?next # rest"
    using stream_first_request[of fuel JSON_parse c ?next w'] by blast
  obtain ext where h: "history (stream (Suc fuel) JSON_parse c ?next w') = ?next @ ext"
    using stream_history_extends[of "Suc fuel" JSON_parse c ?next w'] by blast
  from unfold r h
  show "\<exists>rest ext.
          requests (stream (Suc (Suc fuel)) JSON_parse c messages w) = messages # ?next # rest
        \<and> history (stream (Suc (Suc fuel)) JSON_parse c messages w) =
            messages @ [\<lparr>role = Assistant, content = ResponseBlocks (finalized s)\<rparr>,
                        \<lparr>role = User, content = ResultBlocks resultBlocks\<rparr>] @ ext"
    by (simp add: after_turn_def)
qed


lemma example_first_turn:
  "createStream example_client hi = Inr tool_turn"
  "consume example_parse init_asm tool_turn = (tool_turn_asm, None)"
  "dispatch (toolHandlers example_client) (finalized tool_turn_asm) [] (0::nat) =
     (Inr [ToolResult ''toolu_1'' ''4'' None], Suc 0)"
  by (simp_all add: createStream_def example_client_def addTool_def new_client_def
        example_transport_def hi_def tool_turn_def init_asm_def example_parse_def
        sides_json_def tool_turn_asm_def empty_object_def finalized_def roll_dice_tool_def
        roll_dice_handler_def)

lemma example_second_turn:
  "createStream example_client (hi @ tool_use_answered) = Inr text_turn"
  "consume example_parse init_asm text_turn = (text_turn_asm, None)"
  "dispatch (toolHandlers example_client) (finalized text_turn_asm) [] (Suc 0) =
     (Inr [], Suc 0)"
  by (simp_all add: createStream_def example_client_def addTool_def new_client_def
        example_transport_def hi_def tool_use_answered_def text_turn_def init_asm_def
        text_turn_asm_def finalized_def roll_dice_tool_def)

theorem deciding_after_dispatch_witness:
  "createStream example_client hi = Inr tool_turn
   \<and> consume example_parse init_asm tool_turn = (tool_turn_asm, None)
   \<and> dispatch (toolHandlers example_client) (finalized tool_turn_asm) [] (0::nat) =
        (Inr [ToolResult ''toolu_1'' ''4'' None], Suc 0)
   \<and> createStream example_client (hi @ tool_use_answered) = Inr text_turn
   \<and> consume example_parse init_asm text_turn = (text_turn_asm, None)
   \<and> dispatch (toolHandlers example_client) (finalized text_turn_asm) [] (Suc 0) =
        (Inr [], Suc 0)
   \<and> stream (Suc (Suc 0)) example_parse example_client hi 0 =
        \<lparr>yields = [''You rolled '', ''4'', newline],
         history = hi @ tool_use_answered
                   @ [\<lparr>role = Assistant, content = ResponseBlocks [TextBlock ''You rolled 4'']\<rparr>],
         requests = [hi, hi @ tool_use_answered],
         world = Suc 0, status = Finished\<rparr>"
proof -
  note first = deciding_after_dispatch[OF example_first_turn, of "Suc 0" ]
  note second = deciding_after_dispatch[OF example_second_turn, of 0]
  from first second example_first_turn example_second_turn
  show ?thesis
    by (simp add: after_turn_def tool_use_answered_def finalized_def tool_turn_asm_def
          text_turn_asm_def)
qed

section \<open>The event loop\<close>

lemma consume_append:
  "consume JSON_parse s (xs @ ys) =
     (case consume JSON_parse s xs of
        (s', Some e) \<Rightarrow> (s', Some e)
      | (s', None) \<Rightarrow> consume JSON_parse s' ys)"
  by (induction xs arbitrary: s) (auto split: sum.splits)

lemma increments_append: "increments (xs @ ys) = increments xs @ increments ys"
  by (induction xs rule: increments.induct) simp_all

lemma step_inside:
  "inside e \<Longrightarrow>
     step JSON_parse s e =
       Inr (s\<lparr>pendingText := pendingText s @ payload e,
              yielded := yielded s @ increments [e]\<rparr>)"
  by (cases e rule: payload.cases) simp_all

lemma consume_inside:
  "list_all inside seg \<Longrightarrow>
     consume JSON_parse s (seg @ rest) =
       consume JSON_parse
         (s\<lparr>pendingText := pendingText s @ concat (map payload seg),
            yielded := yielded s @ increments seg\<rparr>) rest"
proof (induction seg arbitrary: s)
  case Nil
  then show ?case by simp
next
  case (Cons e seg)
  then have e: "inside e" and seg: "list_all inside seg" by simp_all
  have inc: "increments (e # seg) = increments [e] @ increments seg"
    using increments_append[of "[e]" seg] by simp
  show ?case
    using Cons.IH[OF seg] by (simp add: step_inside[OF e] inc)
qed

lemma consume_text_block:
  assumes "list_all inside seg"
  shows "consume JSON_parse s (ContentBlockStart (TextBlock t0) # seg @ ContentBlockStop # rest) =
           consume JSON_parse
             (s\<lparr>heap := heap s @ [TextBlock (pendingText s @ concat (map payload seg))],
                pendingBlock := Some (length (heap s)),
                responseBlocks := responseBlocks s @ [length (heap s)],
                pendingText := [],
                yielded := yielded s @ increments seg @ [newline]\<rparr>) rest"
  by (cases s) (simp add: consume_inside[OF assms])

lemma consume_tool_use_block:
  assumes "list_all inside seg"
  shows "consume JSON_parse s
           (ContentBlockStart (ToolUseBlock i n inp0) # seg @ ContentBlockStop # rest) =
           (let txt = pendingText s @ concat (map payload seg);
                s1 = s\<lparr>heap := heap s @ [ToolUseBlock i n inp0],
                        pendingBlock := Some (length (heap s)),
                        pendingText := txt,
                        yielded := yielded s @ increments seg\<rparr>;
                done = (\<lambda>v. s\<lparr>heap := heap s @ [ToolUseBlock i n v],
                                pendingBlock := Some (length (heap s)),
                                responseBlocks := responseBlocks s @ [length (heap s)],
                                pendingText := [],
                                yielded := yielded s @ increments seg\<rparr>)
            in if txt = [] then consume JSON_parse (done empty_object) rest
               else (case JSON_parse txt of
                       Inl m \<Rightarrow> (s1, Some (JsError m))
                     | Inr v \<Rightarrow> consume JSON_parse (done v) rest))"
  by (cases s) (simp add: consume_inside[OF assms] Let_def split: sum.splits)

lemma message_events_silent:
  assumes "set evs \<subseteq> {MessageStart, MessageDelta, MessageStop}"
  shows "list_all inside evs" and "concat (map payload evs) = []" and "increments evs = []"
  using assms by (induction evs) auto

lemma text_deltas_inside:
  shows "list_all inside (map (\<lambda>d. ContentBlockDelta (TextDelta d)) ds)"
    and "concat (map payload (map (\<lambda>d. ContentBlockDelta (TextDelta d)) ds)) = concat ds"
    and "increments (map (\<lambda>d. ContentBlockDelta (TextDelta d)) ds) = ds"
  by (induction ds) simp_all

section \<open>Block-stop events\<close>

lemma consume_no_start_stop_fails:
  assumes "pendingBlock s = None"
    and "\<forall>b. ContentBlockStart b \<notin> set pre"
  shows "\<exists>s'. consume JSON_parse s (pre @ ContentBlockStop # rest) =
           (s', Some (JsError ''Unexpected content_block_stop''))"
  using assms
proof (induction pre arbitrary: s)
  case Nil
  then show ?case by simp
next
  case (Cons e pre)
  from Cons.prems have nostart: "\<forall>b. ContentBlockStart b \<notin> set pre" by simp
  show ?case
  proof (cases "e = ContentBlockStop")
    case True
    with Cons.prems show ?thesis by simp
  next
    case False
    with Cons.prems(2) have "inside e" by (cases e) auto
    from step_inside[OF this, of JSON_parse s] Cons.IH[OF _ nostart] Cons.prems(1)
    show ?thesis by simp
  qed
qed

text \<open>
  C3, on the code. After a text block has been finalized, a second block-stop does not
  throw: \<^verbatim>\<open>pendingBlock\<close> still refers to the finalized block, which is finalized again
  with the now empty buffer (its text \<open>hi\<close> is overwritten) and pushed a second time, and a
  second newline is yielded. The call finishes normally.
\<close>

theorem stop_after_finalized_block_is_accepted:
  "consume JSON_parse init_asm double_stop_turn =
     (\<lparr>heap = [TextBlock []], pendingBlock = Some 0, responseBlocks = [0, 0],
       pendingText = [], yielded = [''hi'', newline, newline]\<rparr>, None)
   \<and> stream (Suc fuel) JSON_parse double_stop_client hi () =
       \<lparr>yields = [''hi'', newline, newline],
        history = hi @ [\<lparr>role = Assistant,
                          content = ResponseBlocks [TextBlock [], TextBlock []]\<rparr>],
        requests = [hi], world = (), status = Finished\<rparr>"
  by (simp add: double_stop_turn_def init_asm_def double_stop_client_def new_client_def
        createStream_def finalized_def)

section \<open>Block-start events and the text buffer\<close>

lemma step_not_stop:
  assumes "e \<noteq> ContentBlockStop"
  shows "\<exists>s'. step JSON_parse s e = Inr s'
              \<and> pendingText s' = pendingText s @ payload e
              \<and> responseBlocks s' = responseBlocks s
              \<and> yielded s' = yielded s @ increments [e]"
proof (cases "inside e")
  case True
  then show ?thesis by (simp add: step_inside)
next
  case False
  with assms obtain b where "e = ContentBlockStart b" by (cases e) simp_all
  then show ?thesis by simp
qed

lemma consume_no_stop:
  assumes "ContentBlockStop \<notin> set seg"
  shows "\<exists>s'. consume JSON_parse s seg = (s', None)
              \<and> pendingText s' = pendingText s @ concat (map payload seg)
              \<and> responseBlocks s' = responseBlocks s
              \<and> yielded s' = yielded s @ increments seg"
  using assms
proof (induction seg arbitrary: s)
  case Nil
  then show ?case by simp
next
  case (Cons e seg)
  then have e: "e \<noteq> ContentBlockStop" and seg: "ContentBlockStop \<notin> set seg" by auto
  from step_not_stop[OF e, of JSON_parse s] obtain s1 where
    s1: "step JSON_parse s e = Inr s1"
        "pendingText s1 = pendingText s @ payload e"
        "responseBlocks s1 = responseBlocks s"
        "yielded s1 = yielded s @ increments [e]"
    by blast
  from Cons.IH[OF seg, of s1] obtain s' where
    s': "consume JSON_parse s1 seg = (s', None)"
        "pendingText s' = pendingText s1 @ concat (map payload seg)"
        "responseBlocks s' = responseBlocks s1"
        "yielded s' = yielded s1 @ increments seg"
    by blast
  have inc: "increments (e # seg) = increments [e] @ increments seg"
    using increments_append[of "[e]" seg] by simp
  from s1 s' show ?case by (simp add: inc)
qed

lemma last_finalized:
  "responseBlocks s = bs @ [a] \<Longrightarrow> last (finalized s) = heap s ! a"
  by (simp add: finalized_def)

lemma consume_after_no_stop:
  assumes "ContentBlockStop \<notin> set seg"
  obtains s1 where "\<And>rest. consume JSON_parse s (seg @ rest) = consume JSON_parse s1 rest"
    and "pendingText s1 = pendingText s @ concat (map payload seg)"
proof -
  from consume_no_stop[OF assms, of JSON_parse s] obtain s1 where
    s1: "consume JSON_parse s seg = (s1, None)"
        "pendingText s1 = pendingText s @ concat (map payload seg)"
    by blast
  have "\<And>rest. consume JSON_parse s (seg @ rest) = consume JSON_parse s1 rest"
    by (simp add: consume_append s1(1))
  then show thesis using s1(2) by (rule that)
qed

lemma step_stop_resets:
  "(case step JSON_parse s ContentBlockStop of Inl e \<Rightarrow> True | Inr s' \<Rightarrow> pendingText s' = [])"
  by (simp split: option.splits block.splits sum.splits)

text \<open>
  C4, as the code has it. A block-start makes the declared block the pending block and
  leaves the text buffer as it is. The buffer is empty when a turn starts and after every
  block-stop. So the content a block is finalized with is made of every delta since the
  previous block-stop (\<open>seg1\<close> before the block-start, which may hold deltas and
  block-starts, and \<open>seg2\<close> after it): the text of a text block is their concatenation, the
  input of a tool-use block is parsed from it.
\<close>

theorem block_content_since_previous_stop:
  assumes "ContentBlockStop \<notin> set seg1" and "list_all inside seg2"
  shows "(\<exists>s'. step JSON_parse s (ContentBlockStart b) = Inr s'
               \<and> pendingBlock s' = Some (length (heap s))
               \<and> heap s' ! length (heap s) = b
               \<and> pendingText s' = pendingText s)
       \<and> pendingText init_asm = []
       \<and> (case step JSON_parse s ContentBlockStop of
             Inl e \<Rightarrow> True
           | Inr s' \<Rightarrow> pendingText s' = [])
       \<and> (\<exists>s3. consume JSON_parse s
                  (seg1 @ ContentBlockStart (TextBlock t0) # seg2 @ [ContentBlockStop]) =
                  (s3, None)
               \<and> last (finalized s3) =
                   TextBlock (pendingText s @ concat (map payload (seg1 @ seg2)))
               \<and> pendingText s3 = [])
       \<and> (case (if pendingText s @ concat (map payload (seg1 @ seg2)) = []
                 then Inr empty_object
                 else JSON_parse (pendingText s @ concat (map payload (seg1 @ seg2)))) of
             Inl m \<Rightarrow>
               (\<exists>s2. consume JSON_parse s
                  (seg1 @ ContentBlockStart (ToolUseBlock i n inp0) # seg2 @ [ContentBlockStop]) =
                  (s2, Some (JsError m)))
           | Inr v \<Rightarrow>
               (\<exists>s3. consume JSON_parse s
                  (seg1 @ ContentBlockStart (ToolUseBlock i n inp0) # seg2 @ [ContentBlockStop]) =
                  (s3, None)
                \<and> last (finalized s3) = ToolUseBlock i n v
                \<and> pendingText s3 = []))"
proof (intro conjI)
  show "\<exists>s'. step JSON_parse s (ContentBlockStart b) = Inr s'
               \<and> pendingBlock s' = Some (length (heap s))
               \<and> heap s' ! length (heap s) = b
               \<and> pendingText s' = pendingText s"
    by simp
  show "pendingText init_asm = []" by (simp add: init_asm_def)
  show "case step JSON_parse s ContentBlockStop of
             Inl e \<Rightarrow> True
           | Inr s' \<Rightarrow> pendingText s' = []"
    by (rule step_stop_resets)
  obtain s1 where
    run: "\<And>rest. consume JSON_parse s (seg1 @ rest) = consume JSON_parse s1 rest"
    and buf: "pendingText s1 = pendingText s @ concat (map payload seg1)"
    using consume_after_no_stop[OF assms(1)] by blast
  define T where "T = pendingText s @ concat (map payload (seg1 @ seg2))"
  have buf': "pendingText s1 @ concat (map payload seg2) = T"
    by (simp add: buf T_def)
  let ?done = "\<lambda>b'. s1\<lparr>heap := heap s1 @ [b'],
                 pendingBlock := Some (length (heap s1)),
                 responseBlocks := responseBlocks s1 @ [length (heap s1)],
                 pendingText := [],
                 yielded := yielded s1 @ increments seg2\<rparr>"
  let ?open = "s1\<lparr>heap := heap s1 @ [ToolUseBlock i n inp0],
                 pendingBlock := Some (length (heap s1)),
                 pendingText := T,
                 yielded := yielded s1 @ increments seg2\<rparr>"
  have last_done: "\<And>b'. last (finalized (?done b')) = b'"
    by (simp add: finalized_def)
  have text_run: "consume JSON_parse s
                  (seg1 @ ContentBlockStart (TextBlock t0) # seg2 @ [ContentBlockStop]) =
                  ((?done (TextBlock T))\<lparr>yielded := yielded s1 @ increments seg2 @ [newline]\<rparr>,
                   None)"
    unfolding run
    by (simp only: consume_text_block[OF assms(2)] buf' consume.simps(1)) simp
  have tool_run: "consume JSON_parse s
                  (seg1 @ ContentBlockStart (ToolUseBlock i n inp0) # seg2 @ [ContentBlockStop]) =
                  (if T = [] then (?done (ToolUseBlock i n empty_object), None)
                   else (case JSON_parse T of
                           Inl m \<Rightarrow> (?open, Some (JsError m))
                         | Inr v \<Rightarrow> (?done (ToolUseBlock i n v), None)))"
    unfolding run
    by (simp only: consume_tool_use_block[OF assms(2)] buf' consume.simps(1) Let_def)
  show "\<exists>s3. consume JSON_parse s
                  (seg1 @ ContentBlockStart (TextBlock t0) # seg2 @ [ContentBlockStop]) =
                  (s3, None)
               \<and> last (finalized s3) =
                   TextBlock (pendingText s @ concat (map payload (seg1 @ seg2)))
               \<and> pendingText s3 = []"
    unfolding T_def[symmetric] text_run
    by (simp add: finalized_def)
  show "case (if pendingText s @ concat (map payload (seg1 @ seg2)) = []
                 then Inr empty_object
                 else JSON_parse (pendingText s @ concat (map payload (seg1 @ seg2)))) of
             Inl m \<Rightarrow>
               (\<exists>s2. consume JSON_parse s
                  (seg1 @ ContentBlockStart (ToolUseBlock i n inp0) # seg2 @ [ContentBlockStop]) =
                  (s2, Some (JsError m)))
           | Inr v \<Rightarrow>
               (\<exists>s3. consume JSON_parse s
                  (seg1 @ ContentBlockStart (ToolUseBlock i n inp0) # seg2 @ [ContentBlockStop]) =
                  (s3, None)
                \<and> last (finalized s3) = ToolUseBlock i n v
                \<and> pendingText s3 = [])"
    unfolding T_def[symmetric] tool_run
    by (cases "T = []") (simp_all add: finalized_def split: sum.splits)
qed

theorem block_content_since_previous_stop_witness:
  "ContentBlockStop \<notin> set unstopped
   \<and> list_all inside following
   \<and> consume example_parse init_asm
        (unstopped @ ContentBlockStart (TextBlock []) # following @ [ContentBlockStop]) =
        (\<lparr>heap = [TextBlock [], TextBlock ''xy''], pendingBlock = Some 1, responseBlocks = [1],
          pendingText = [], yielded = [''x'', ''y'', newline]\<rparr>, None)
   \<and> last (finalized
        \<lparr>heap = [TextBlock [], TextBlock ''xy''], pendingBlock = Some 1, responseBlocks = [1],
         pendingText = [], yielded = [''x'', ''y'', newline]\<rparr>) =
       TextBlock (pendingText init_asm @ concat (map payload (unstopped @ following)))"
proof -
  have h1: "ContentBlockStop \<notin> set unstopped" by (simp add: unstopped_def)
  have h2: "list_all inside following" by (simp add: following_def)
  from block_content_since_previous_stop[OF h1 h2, of example_parse init_asm] h1 h2
  show ?thesis
    by (simp add: unstopped_def following_def init_asm_def finalized_def)
qed

text \<open>
  C4, as the claim states it, fails. After a block that was started but not stopped, the
  next block-start leaves the buffer at \<open>x\<close>, and the block it opens is finalized as \<open>xy\<close>,
  while the same block-start, delta and block-stop alone finalize it as \<open>y\<close>.
\<close>

theorem block_start_resets_buffer_counterexample:
  "pendingText (fst (consume example_parse init_asm
      (unstopped @ [ContentBlockStart (TextBlock [])]))) = ''x''
   \<and> pendingText (fst (consume example_parse init_asm
      (unstopped @ [ContentBlockStart (TextBlock [])]))) \<noteq> []
   \<and> finalized (fst (consume example_parse init_asm
      (unstopped @ ContentBlockStart (TextBlock []) # following @ [ContentBlockStop]))) =
       [TextBlock ''xy'']
   \<and> finalized (fst (consume example_parse init_asm
      (ContentBlockStart (TextBlock []) # following @ [ContentBlockStop]))) =
       [TextBlock ''y'']"
  by (simp add: unstopped_def following_def init_asm_def finalized_def)


section \<open>Finalizing a tool-use block\<close>

lemma refs_ok_init: "refs_ok init_asm"
  by (simp add: refs_ok_def init_asm_def)

lemma refs_ok_step:
  assumes "refs_ok s" and "step JSON_parse s e = Inr s'"
  shows "refs_ok s'"
proof (cases "inside e")
  case True
  with assms show ?thesis by (auto simp: step_inside refs_ok_def split: option.splits)
next
  case False
  then consider (start) b where "e = ContentBlockStart b" | (stop) "e = ContentBlockStop"
    by (cases e) simp_all
  then show ?thesis
  proof cases
    case start
    with assms show ?thesis
      by (auto simp: refs_ok_def list_all_iff less_Suc_eq split: option.splits)
  next
    case stop
    with assms show ?thesis
      by (auto simp: refs_ok_def list_all_iff
               split: option.splits block.splits if_splits sum.splits)
  qed
qed

lemma refs_ok_consume:
  "refs_ok s \<Longrightarrow> consume JSON_parse s evs = (s', r) \<Longrightarrow> refs_ok s'"
proof (induction evs arbitrary: s)
  case Nil
  then show ?case by simp
next
  case (Cons e evs)
  show ?case
  proof (cases "step JSON_parse s e")
    case (Inl err)
    with Cons.prems show ?thesis by simp
  next
    case (Inr s1)
    from refs_ok_step[OF Cons.prems(1) Inr] have "refs_ok s1" .
    moreover from Cons.prems(2) Inr have "consume JSON_parse s1 evs = (s', r)" by simp
    ultimately show ?thesis by (rule Cons.IH)
  qed
qed

lemma pending_in_heap:
  assumes "consume JSON_parse init_asm pre = (s, r)" and "pendingBlock s = Some a"
  shows "a < length (heap s)"
  using refs_ok_consume[OF refs_ok_init assms(1)] assms(2)
  by (simp add: refs_ok_def)

text \<open>
  C6. When the block-stop of a pending tool-use block arrives: with an empty buffer the
  block's input becomes the empty object, whatever \<^verbatim>\<open>JSON.parse\<close> would say of the empty
  string; with a non-empty buffer that parses, the input becomes the parsed value; with a
  non-empty buffer that does not parse, the \<^verbatim>\<open>SyntaxError\<close> is thrown and the call fails
  with it, with nothing dispatched, the history untouched and no further request.
\<close>

theorem tool_use_input_at_block_stop:
  assumes "createStream c messages = Inr (pre @ ContentBlockStop # post)"
    and "consume JSON_parse init_asm pre = (s, None)"
    and "pendingBlock s = Some a"
    and "heap s ! a = ToolUseBlock i n inp0"
  shows "(pendingText s = [] \<longrightarrow>
            (\<exists>s'. step JSON_parse s ContentBlockStop = Inr s'
                \<and> last (finalized s') = ToolUseBlock i n empty_object
                \<and> pendingText s' = []))
       \<and> (\<forall>v. pendingText s \<noteq> [] \<and> JSON_parse (pendingText s) = Inr v \<longrightarrow>
            (\<exists>s'. step JSON_parse s ContentBlockStop = Inr s'
                \<and> last (finalized s') = ToolUseBlock i n v
                \<and> pendingText s' = []))
       \<and> (\<forall>m. pendingText s \<noteq> [] \<and> JSON_parse (pendingText s) = Inl m \<longrightarrow>
            step JSON_parse s ContentBlockStop = Inl (JsError m)
          \<and> stream (Suc fuel) JSON_parse c messages w =
              \<lparr>yields = yielded s, history = messages, requests = [messages], world = w,
               status = Failed (JsError m)\<rparr>)"
proof -
  have a: "a < length (heap s)"
    using pending_in_heap[OF assms(2,3)] .
  have fin: "\<And>v. last (finalized
        (s\<lparr>heap := (heap s)[a := ToolUseBlock i n v], pendingText := [],
            responseBlocks := responseBlocks s @ [a]\<rparr>)) = ToolUseBlock i n v"
    using a by (simp add: finalized_def)
  show ?thesis
  proof (intro conjI impI allI)
    assume "pendingText s = []"
    with assms(3,4) fin[of empty_object]
    show "\<exists>s'. step JSON_parse s ContentBlockStop = Inr s'
                \<and> last (finalized s') = ToolUseBlock i n empty_object
                \<and> pendingText s' = []"
      by simp
  next
    fix v
    assume "pendingText s \<noteq> [] \<and> JSON_parse (pendingText s) = Inr v"
    with assms(3,4) fin[of v]
    show "\<exists>s'. step JSON_parse s ContentBlockStop = Inr s'
                \<and> last (finalized s') = ToolUseBlock i n v
                \<and> pendingText s' = []"
      by simp
  next
    fix m
    assume bad: "pendingText s \<noteq> [] \<and> JSON_parse (pendingText s) = Inl m"
    with assms(3,4) show thrown: "step JSON_parse s ContentBlockStop = Inl (JsError m)"
      by simp
    have "consume JSON_parse init_asm (pre @ ContentBlockStop # post) = (s, Some (JsError m))"
      by (simp del: step.simps add: consume_append assms(2) thrown)
    from stream_assembly_fails[OF assms(1) this]
    show "stream (Suc fuel) JSON_parse c messages w =
              \<lparr>yields = yielded s, history = messages, requests = [messages], world = w,
               status = Failed (JsError m)\<rparr>" .
  qed
qed

lemma no_input_example:
  "createStream no_input_client hi = Inr (no_input_pre @ ContentBlockStop # [MessageStop])"
  "consume example_parse init_asm no_input_pre =
     (\<lparr>heap = [ToolUseBlock ''toolu_1'' ''roll_dice'' JNull], pendingBlock = Some 0,
       responseBlocks = [], pendingText = [], yielded = []\<rparr>, None)"
  by (simp_all add: createStream_def no_input_client_def new_client_def no_input_pre_def
        init_asm_def)

lemma bad_input_example:
  "createStream bad_input_client hi = Inr (bad_input_pre @ ContentBlockStop # [MessageStop])"
  "consume example_parse init_asm bad_input_pre =
     (\<lparr>heap = [ToolUseBlock ''toolu_1'' ''roll_dice'' (JObject [])], pendingBlock = Some 0,
       responseBlocks = [], pendingText = ''{'', yielded = []\<rparr>, None)"
  by (simp_all add: createStream_def bad_input_client_def new_client_def bad_input_pre_def
        init_asm_def)

lemma good_input_example:
  "createStream example_client hi =
     Inr (good_input_pre @ ContentBlockStop # [MessageDelta, MessageStop])"
  "consume example_parse init_asm good_input_pre =
     (\<lparr>heap = [ToolUseBlock ''toolu_1'' ''roll_dice'' (JObject [])], pendingBlock = Some 0,
       responseBlocks = [], pendingText = sides_json, yielded = []\<rparr>, None)"
  by (simp_all add: createStream_def example_client_def addTool_def new_client_def
        example_transport_def hi_def tool_turn_def good_input_pre_def init_asm_def
        sides_json_def)

theorem tool_use_input_at_block_stop_witness:
  "createStream no_input_client hi = Inr (no_input_pre @ ContentBlockStop # [MessageStop])
   \<and> consume example_parse init_asm no_input_pre =
       (\<lparr>heap = [ToolUseBlock ''toolu_1'' ''roll_dice'' JNull], pendingBlock = Some 0,
         responseBlocks = [], pendingText = [], yielded = []\<rparr>, None)
   \<and> example_parse [] = Inl ''Unexpected token''
   \<and> step example_parse
        \<lparr>heap = [ToolUseBlock ''toolu_1'' ''roll_dice'' JNull], pendingBlock = Some 0,
         responseBlocks = [], pendingText = [], yielded = []\<rparr> ContentBlockStop =
       Inr \<lparr>heap = [ToolUseBlock ''toolu_1'' ''roll_dice'' empty_object], pendingBlock = Some 0,
            responseBlocks = [0], pendingText = [], yielded = []\<rparr>
   \<and> createStream example_client hi =
       Inr (good_input_pre @ ContentBlockStop # [MessageDelta, MessageStop])
   \<and> consume example_parse init_asm good_input_pre =
       (\<lparr>heap = [ToolUseBlock ''toolu_1'' ''roll_dice'' (JObject [])], pendingBlock = Some 0,
         responseBlocks = [], pendingText = sides_json, yielded = []\<rparr>, None)
   \<and> sides_json \<noteq> []
   \<and> example_parse sides_json = Inr (JObject [(''sides'', JNumber 6)])
   \<and> step example_parse
        \<lparr>heap = [ToolUseBlock ''toolu_1'' ''roll_dice'' (JObject [])], pendingBlock = Some 0,
         responseBlocks = [], pendingText = sides_json, yielded = []\<rparr> ContentBlockStop =
       Inr \<lparr>heap = [ToolUseBlock ''toolu_1'' ''roll_dice'' (JObject [(''sides'', JNumber 6)])],
            pendingBlock = Some 0, responseBlocks = [0], pendingText = [], yielded = []\<rparr>
   \<and> createStream bad_input_client hi = Inr (bad_input_pre @ ContentBlockStop # [MessageStop])
   \<and> consume example_parse init_asm bad_input_pre =
       (\<lparr>heap = [ToolUseBlock ''toolu_1'' ''roll_dice'' (JObject [])], pendingBlock = Some 0,
         responseBlocks = [], pendingText = ''{'', yielded = []\<rparr>, None)
   \<and> example_parse ''{'' = Inl ''Unexpected token''
   \<and> stream (Suc 0) example_parse bad_input_client hi () =
       \<lparr>yields = [], history = hi, requests = [hi], world = (),
        status = Failed (JsError ''Unexpected token'')\<rparr>"
proof -
  have p1: "example_parse [] = Inl ''Unexpected token''"
    by (simp add: example_parse_def sides_json_def)
  have p2: "example_parse ''{'' = Inl ''Unexpected token''"
    by (simp add: example_parse_def sides_json_def)
  have p3: "sides_json \<noteq> []"
    "example_parse sides_json = Inr (JObject [(''sides'', JNumber 6)])"
    by (simp_all add: example_parse_def sides_json_def)
  note good = tool_use_input_at_block_stop[OF good_input_example, of 0 "''toolu_1''"
      "''roll_dice''" "JObject []" 0 "0"]
  note empty = tool_use_input_at_block_stop[OF no_input_example, of 0 "''toolu_1''"
      "''roll_dice''" JNull 0 "()"]
  note bad = tool_use_input_at_block_stop[OF bad_input_example, of 0 "''toolu_1''"
      "''roll_dice''" "JObject []" 0 "()"]
  from empty good bad p1 p2 p3 no_input_example good_input_example bad_input_example
  show ?thesis by simp
qed


section \<open>Failures during dispatch\<close>

lemma dispatch_tool_use_onwards:
  assumes "dispatch hs before [] w = (Inr rs1, w1)"
  shows "dispatch hs (before @ ToolUseBlock i n inp # rest) [] w =
           dispatch hs (ToolUseBlock i n inp # rest) rs1 w1"
  by (simp add: dispatch_append assms)

lemma dispatch_acc:
  "dispatch hs blocks acc w =
     (case dispatch hs blocks [] w of
        (Inl e, w') \<Rightarrow> (Inl e, w')
      | (Inr rs, w') \<Rightarrow> (Inr (acc @ rs), w'))"
proof (induction blocks arbitrary: acc w)
  case Nil
  then show ?case by simp
next
  case (Cons b blocks)
  show ?case
  proof (cases b)
    case (TextBlock t)
    with Cons.IH[of acc w] show ?thesis by simp
  next
    case (ToolUseBlock i n inp)
    show ?thesis
    proof (cases "map_of hs n")
      case None
      with ToolUseBlock show ?thesis by simp
    next
      case (Some h)
      obtain r w1 where call: "h inp w = (r, w1)" by (cases "h inp w")
      show ?thesis
      proof (cases r)
        case (Resolved toolResult)
        with ToolUseBlock Some call
          Cons.IH[of "acc @ [ToolResult i toolResult None]" w1]
          Cons.IH[of "[ToolResult i toolResult None]" w1]
        show ?thesis by (simp split: prod.splits sum.splits)
      next
        case (Rejected e)
        show ?thesis
        proof (cases e)
          case (JsError m)
          with Rejected ToolUseBlock Some call
            Cons.IH[of "acc @ [ToolResult i m (Some True)]" w1]
            Cons.IH[of "[ToolResult i m (Some True)]" w1]
          show ?thesis by (simp split: prod.splits sum.splits)
        next
          case (NonError v)
          with Rejected ToolUseBlock Some call show ?thesis by simp
        qed
      qed
    qed
  qed
qed

text \<open>
  C7. In a turn whose tool-use block \<open>i\<close> is reached by dispatch (the blocks before it
  gave results \<open>rs1\<close>): if its handler throws an \<^verbatim>\<open>Error\<close> with message \<open>m\<close>, the result for
  \<open>i\<close> carries \<open>m\<close> and the error flag, in its place among the results, and (the remaining
  blocks dispatched) the loop goes on to the next turn with these results; if the handler
  throws anything else, the thrown value leaves dispatch and the call fails with it, with
  no further request.
\<close>

theorem handler_error_becomes_result:
  assumes "createStream c messages = Inr response"
    and "consume JSON_parse init_asm response = (s, None)"
    and "finalized s = before @ ToolUseBlock i n inp # rest"
    and "dispatch (toolHandlers c) before [] w = (Inr rs1, w1)"
    and "map_of (toolHandlers c) n = Some handler"
  shows "(\<forall>m w2 rs2 w3.
            handler inp w1 = (Rejected (JsError m), w2)
          \<and> dispatch (toolHandlers c) rest [] w2 = (Inr rs2, w3) \<longrightarrow>
            dispatch (toolHandlers c) (finalized s) [] w =
              (Inr (rs1 @ ToolResult i m (Some True) # rs2), w3)
          \<and> stream (Suc fuel) JSON_parse c messages w =
              after_turn (yielded s) messages
                (stream fuel JSON_parse c
                   (messages @
                      [\<lparr>role = Assistant, content = ResponseBlocks (finalized s)\<rparr>,
                       \<lparr>role = User,
                        content = ResultBlocks (rs1 @ ToolResult i m (Some True) # rs2)\<rparr>])
                   w3))
       \<and> (\<forall>v w2.
            handler inp w1 = (Rejected (NonError v), w2) \<longrightarrow>
            dispatch (toolHandlers c) (finalized s) [] w = (Inl (NonError v), w2)
          \<and> stream (Suc fuel) JSON_parse c messages w =
              \<lparr>yields = yielded s,
               history = messages
                         @ [\<lparr>role = Assistant, content = ResponseBlocks (finalized s)\<rparr>],
               requests = [messages], world = w2, status = Failed (NonError v)\<rparr>)"
proof (intro conjI allI impI)
  fix m w2 rs2 w3
  assume h: "handler inp w1 = (Rejected (JsError m), w2)
          \<and> dispatch (toolHandlers c) rest [] w2 = (Inr rs2, w3)"
  have "dispatch (toolHandlers c) rest (rs1 @ [ToolResult i m (Some True)]) w2 =
          (Inr ((rs1 @ [ToolResult i m (Some True)]) @ rs2), w3)"
    using h by (subst dispatch_acc) simp
  with h assms(5)
  show d: "dispatch (toolHandlers c) (finalized s) [] w =
              (Inr (rs1 @ ToolResult i m (Some True) # rs2), w3)"
    by (simp add: assms(3) dispatch_tool_use_onwards[OF assms(4)])
  have "rs1 @ ToolResult i m (Some True) # rs2 \<noteq> []" by simp
  with stream_some_results[OF assms(1,2) d]
  show "stream (Suc fuel) JSON_parse c messages w =
              after_turn (yielded s) messages
                (stream fuel JSON_parse c
                   (messages @
                      [\<lparr>role = Assistant, content = ResponseBlocks (finalized s)\<rparr>,
                       \<lparr>role = User,
                        content = ResultBlocks (rs1 @ ToolResult i m (Some True) # rs2)\<rparr>])
                   w3)"
    by blast
next
  fix v w2
  assume h: "handler inp w1 = (Rejected (NonError v), w2)"
  with assms(5)
  show d: "dispatch (toolHandlers c) (finalized s) [] w = (Inl (NonError v), w2)"
    by (simp add: assms(3) dispatch_tool_use_onwards[OF assms(4)])
  from stream_dispatch_fails[OF assms(1,2) d]
  show "stream (Suc fuel) JSON_parse c messages w =
              \<lparr>yields = yielded s,
               history = messages
                         @ [\<lparr>role = Assistant, content = ResponseBlocks (finalized s)\<rparr>],
               requests = [messages], world = w2, status = Failed (NonError v)\<rparr>" .
qed

lemma divide_turn_example:
  "consume example_parse init_asm divide_turn = (divide_asm, None)"
  "finalized divide_asm = [] @ ToolUseBlock ''toolu_1'' ''divide'' empty_object # []"
  by (simp_all add: divide_turn_def init_asm_def divide_asm_def finalized_def)

lemma failing_client_example:
  "createStream failing_client hi = Inr divide_turn"
  "map_of (toolHandlers failing_client) ''divide'' = Some failing_handler"
  "createStream failing_client (hi @ divide_answered) = Inr text_turn"
  by (simp_all add: createStream_def failing_client_def addTool_def new_client_def
        divide_transport_def hi_def divide_tool_def divide_answered_def)

lemma crashing_client_example:
  "createStream crashing_client hi = Inr divide_turn"
  "map_of (toolHandlers crashing_client) ''divide'' = Some crashing_handler"
  by (simp_all add: createStream_def crashing_client_def addTool_def new_client_def
        divide_transport_def hi_def divide_tool_def)

theorem handler_error_becomes_result_witness:
  "createStream failing_client hi = Inr divide_turn
   \<and> consume example_parse init_asm divide_turn = (divide_asm, None)
   \<and> finalized divide_asm = [] @ ToolUseBlock ''toolu_1'' ''divide'' empty_object # []
   \<and> map_of (toolHandlers failing_client) ''divide'' = Some failing_handler
   \<and> failing_handler empty_object 0 = (Rejected (JsError ''division by zero''), Suc 0)
   \<and> dispatch (toolHandlers failing_client) (finalized divide_asm) [] 0 =
       (Inr [ToolResult ''toolu_1'' ''division by zero'' (Some True)], Suc 0)
   \<and> stream (Suc (Suc 0)) example_parse failing_client hi 0 =
       \<lparr>yields = [''You rolled '', ''4'', newline],
        history = hi @ divide_answered
                  @ [\<lparr>role = Assistant, content = ResponseBlocks [TextBlock ''You rolled 4'']\<rparr>],
        requests = [hi, hi @ divide_answered], world = Suc 0, status = Finished\<rparr>
   \<and> createStream crashing_client hi = Inr divide_turn
   \<and> map_of (toolHandlers crashing_client) ''divide'' = Some crashing_handler
   \<and> crashing_handler empty_object 0 = (Rejected (NonError (JString ''boom'')), Suc 0)
   \<and> stream (Suc (Suc 0)) example_parse crashing_client hi 0 =
       \<lparr>yields = [],
        history = hi @ [\<lparr>role = Assistant,
                          content = ResponseBlocks
                            [ToolUseBlock ''toolu_1'' ''divide'' empty_object]\<rparr>],
        requests = [hi], world = Suc 0, status = Failed (NonError (JString ''boom''))\<rparr>"
proof -
  have nothing_before: "\<And>hs. dispatch hs [] [] (0::nat) = (Inr [], 0)" by simp
  have f: "failing_handler empty_object 0 = (Rejected (JsError ''division by zero''), Suc 0)"
    by (simp add: failing_handler_def)
  have g: "crashing_handler empty_object 0 = (Rejected (NonError (JString ''boom'')), Suc 0)"
    by (simp add: crashing_handler_def)
  have second: "stream (Suc 0) example_parse failing_client (hi @ divide_answered) (Suc 0) =
       \<lparr>yields = [''You rolled '', ''4'', newline],
        history = hi @ divide_answered
                  @ [\<lparr>role = Assistant, content = ResponseBlocks [TextBlock ''You rolled 4'']\<rparr>],
        requests = [hi @ divide_answered], world = Suc 0, status = Finished\<rparr>"
    using stream_no_results[OF failing_client_example(3) example_second_turn(2),
        of "Suc 0" "Suc 0" 0]
    by (simp add: text_turn_asm_def finalized_def)
  have f': "failing_handler empty_object 0 = (Rejected (JsError ''division by zero''), Suc 0)
          \<and> dispatch (toolHandlers failing_client) [] [] (Suc 0) = (Inr [], Suc 0)"
    using f by simp
  note recovered = handler_error_becomes_result[OF failing_client_example(1)
      divide_turn_example nothing_before failing_client_example(2), of "Suc 0",
      THEN conjunct1, rule_format, OF f']
  note aborted = handler_error_becomes_result[OF crashing_client_example(1)
      divide_turn_example nothing_before crashing_client_example(2), of "Suc 0",
      THEN conjunct2, rule_format, OF g]
  from recovered aborted f g second divide_turn_example failing_client_example
    crashing_client_example
  show ?thesis
    by (simp del: stream.simps
          add: after_turn_def divide_answered_def divide_asm_def finalized_def)
qed

lemma dispatch_unregistered:
  assumes "map_of hs n = None"
  shows "\<exists>e w'. dispatch hs (before @ ToolUseBlock i n inp # rest) acc w = (Inl e, w')"
proof -
  obtain r w1 where d: "dispatch hs before acc w = (r, w1)"
    by (cases "dispatch hs before acc w")
  show ?thesis
  proof (cases r)
    case (Inl e)
    with d show ?thesis by (simp add: dispatch_append)
  next
    case (Inr rs1)
    with d assms show ?thesis by (simp add: dispatch_append)
  qed
qed

text \<open>
  C8. If the finalized blocks of a turn hold a tool-use block whose name has no handler,
  the call fails: dispatch throws, no tool results are sent and no further request is
  made. When the blocks before it dispatch normally, the error is the \<^verbatim>\<open>Error\<close>
  \<open>No handler for tool\<close> with the name. (The assistant message of the turn is already in
  the history.)
\<close>

theorem unregistered_tool_is_fatal:
  assumes "createStream c messages = Inr response"
    and "consume JSON_parse init_asm response = (s, None)"
    and "finalized s = before @ ToolUseBlock i n inp # rest"
    and "map_of (toolHandlers c) n = None"
  shows "(\<exists>e w'. stream (Suc fuel) JSON_parse c messages w =
              \<lparr>yields = yielded s,
               history = messages
                         @ [\<lparr>role = Assistant, content = ResponseBlocks (finalized s)\<rparr>],
               requests = [messages], world = w', status = Failed e\<rparr>)
       \<and> (\<forall>rs1 w1. dispatch (toolHandlers c) before [] w = (Inr rs1, w1) \<longrightarrow>
            stream (Suc fuel) JSON_parse c messages w =
              \<lparr>yields = yielded s,
               history = messages
                         @ [\<lparr>role = Assistant, content = ResponseBlocks (finalized s)\<rparr>],
               requests = [messages], world = w1,
               status = Failed (JsError (''No handler for tool '' @ n))\<rparr>)"
proof (intro conjI allI impI)
  from dispatch_unregistered[OF assms(4), of before i inp rest "[]" w]
  obtain e w' where "dispatch (toolHandlers c) (finalized s) [] w = (Inl e, w')"
    unfolding assms(3) by blast
  from stream_dispatch_fails[OF assms(1,2) this]
  show "\<exists>e w'. stream (Suc fuel) JSON_parse c messages w =
              \<lparr>yields = yielded s,
               history = messages
                         @ [\<lparr>role = Assistant, content = ResponseBlocks (finalized s)\<rparr>],
               requests = [messages], world = w', status = Failed e\<rparr>"
    by blast
next
  fix rs1 w1
  assume "dispatch (toolHandlers c) before [] w = (Inr rs1, w1)"
  from dispatch_tool_use_onwards[OF this, of i n inp rest] assms(4)
  have "dispatch (toolHandlers c) (finalized s) [] w =
          (Inl (JsError (''No handler for tool '' @ n)), w1)"
    unfolding assms(3) by simp
  from stream_dispatch_fails[OF assms(1,2) this]
  show "stream (Suc fuel) JSON_parse c messages w =
              \<lparr>yields = yielded s,
               history = messages
                         @ [\<lparr>role = Assistant, content = ResponseBlocks (finalized s)\<rparr>],
               requests = [messages], world = w1,
               status = Failed (JsError (''No handler for tool '' @ n))\<rparr>" .
qed

lemma bare_client_example:
  "createStream bare_client hi = Inr divide_turn"
  "map_of (toolHandlers bare_client) ''divide'' = None"
  by (simp_all add: createStream_def bare_client_def new_client_def divide_transport_def
        hi_def)

theorem unregistered_tool_is_fatal_witness:
  "createStream bare_client hi = Inr divide_turn
   \<and> consume example_parse init_asm divide_turn = (divide_asm, None)
   \<and> finalized divide_asm = [] @ ToolUseBlock ''toolu_1'' ''divide'' empty_object # []
   \<and> map_of (toolHandlers bare_client) ''divide'' = None
   \<and> stream (Suc (Suc 0)) example_parse bare_client hi 0 =
       \<lparr>yields = [],
        history = hi @ [\<lparr>role = Assistant,
                          content = ResponseBlocks
                            [ToolUseBlock ''toolu_1'' ''divide'' empty_object]\<rparr>],
        requests = [hi], world = 0,
        status = Failed (JsError ''No handler for tool divide'')\<rparr>"
proof -
  have nothing_before: "dispatch (toolHandlers bare_client) [] [] (0::nat) = (Inr [], 0)"
    by simp
  note fatal = unregistered_tool_is_fatal[OF bare_client_example(1) divide_turn_example
      bare_client_example(2), of "Suc 0" 0, THEN conjunct2, rule_format, OF nothing_before]
  from fatal bare_client_example divide_turn_example
  show ?thesis
    by (simp del: stream.simps add: divide_asm_def finalized_def)
qed


section \<open>The tool registry\<close>

lemma addTool_lookup:
  "map_of (toolHandlers (addTool t h c)) (name t) = Some h"
  by (simp add: addTool_def update_conv')

lemma addTool_keys_distinct:
  "distinct (map fst (toolHandlers c)) \<Longrightarrow> distinct (map fst (toolHandlers (addTool t h c)))"
  by (simp add: addTool_def distinct_update)

lemma new_client_keys_distinct: "distinct (map fst (toolHandlers (new_client transport)))"
  by (simp add: new_client_def)

lemma one_entry_per_key:
  "distinct (map fst al) \<Longrightarrow> map_of al k = Some v \<Longrightarrow>
     length (filter (\<lambda>(k', v'). k' = k) al) = 1"
proof (induction al)
  case Nil
  then show ?case by simp
next
  case (Cons p al)
  obtain k' v' where p: "p = (k', v')" by (cases p)
  show ?case
  proof (cases "k' = k")
    case True
    with Cons.prems p have "k \<notin> fst ` set al" by simp
    then have "filter (\<lambda>(k', v'). k' = k) al = []"
      by (force simp: filter_empty_conv)
    with True p show ?thesis by simp
  next
    case False
    with Cons p show ?thesis by simp
  qed
qed

text \<open>
  C9, as the code has it. After two registrations under one name the handler map has
  exactly one entry for the name, and it is the later handler; the keys of the map stay
  distinct. The tool list has gained both declarations, and it is this list, with both
  of them, that every request hands to the provider's transport.
\<close>

theorem duplicate_registration_overwrites_handler:
  assumes "name t2 = name t1" and "distinct (map fst (toolHandlers c))"
  shows "map_of (toolHandlers (addTool t2 h2 (addTool t1 h1 c))) (name t1) = Some h2
       \<and> length (filter (\<lambda>(k, h). k = name t1)
                   (toolHandlers (addTool t2 h2 (addTool t1 h1 c)))) = 1
       \<and> distinct (map fst (toolHandlers (addTool t2 h2 (addTool t1 h1 c))))
       \<and> tools (addTool t2 h2 (addTool t1 h1 c)) = tools c @ [t1, t2]
       \<and> createStream (addTool t2 h2 (addTool t1 h1 c)) messages =
           client c (tools c @ [t1, t2]) messages
       \<and> (\<forall>e. client c (tools c @ [t1, t2]) messages = Inl e \<longrightarrow>
            stream (Suc fuel) JSON_parse (addTool t2 h2 (addTool t1 h1 c)) messages w =
              \<lparr>yields = [], history = messages, requests = [messages], world = w,
               status = Failed e\<rparr>)"
proof -
  let ?c = "addTool t2 h2 (addTool t1 h1 c)"
  have look: "map_of (toolHandlers ?c) (name t1) = Some h2"
    using addTool_lookup[of t2 h2 "addTool t1 h1 c"] assms(1) by simp
  have dist: "distinct (map fst (toolHandlers ?c))"
    by (intro addTool_keys_distinct assms(2))
  have sent: "createStream ?c messages = client c (tools c @ [t1, t2]) messages"
    by (simp add: createStream_def addTool_def)
  have refused: "\<forall>e. client c (tools c @ [t1, t2]) messages = Inl e \<longrightarrow>
            stream (Suc fuel) JSON_parse ?c messages w =
              \<lparr>yields = [], history = messages, requests = [messages], world = w,
               status = Failed e\<rparr>"
  proof (intro allI impI)
    fix e
    assume "client c (tools c @ [t1, t2]) messages = Inl e"
    with sent have "createStream ?c messages = Inl e" by simp
    then show "stream (Suc fuel) JSON_parse ?c messages w =
              \<lparr>yields = [], history = messages, requests = [messages], world = w,
               status = Failed e\<rparr>"
      by (rule stream_transport_fails)
  qed
  have both: "tools ?c = tools c @ [t1, t2]" by (simp add: addTool_def)
  from one_entry_per_key[OF dist look] look dist sent both refused show ?thesis
    by blast
qed

theorem duplicate_registration_overwrites_handler_witness:
  "name roll_dice_tool = name roll_dice_tool
   \<and> distinct (map fst (toolHandlers (new_client strict_transport :: nat ClaudeClient)))
   \<and> map_of (toolHandlers (addTool roll_dice_tool roll_dice_handler
        (addTool roll_dice_tool failing_handler (new_client strict_transport))))
        ''roll_dice'' = Some roll_dice_handler
   \<and> length (filter (\<lambda>(k, h). k = ''roll_dice'')
        (toolHandlers (addTool roll_dice_tool roll_dice_handler
          (addTool roll_dice_tool failing_handler (new_client strict_transport))))) = 1
   \<and> tools (addTool roll_dice_tool roll_dice_handler
        (addTool roll_dice_tool failing_handler (new_client strict_transport))) =
       [roll_dice_tool, roll_dice_tool]
   \<and> createStream (addTool roll_dice_tool roll_dice_handler
        (addTool roll_dice_tool failing_handler (new_client strict_transport))) hi =
       Inl (JsError ''tools: Tool names must be unique.'')
   \<and> stream (Suc 0) example_parse (addTool roll_dice_tool roll_dice_handler
        (addTool roll_dice_tool failing_handler (new_client strict_transport))) hi 0 =
       \<lparr>yields = [], history = hi, requests = [hi], world = 0,
        status = Failed (JsError ''tools: Tool names must be unique.'')\<rparr>
   \<and> createStream (addTool roll_dice_tool roll_dice_handler
        (new_client strict_transport :: nat ClaudeClient)) hi = Inr text_turn"
proof -
  have d: "distinct (map fst (toolHandlers (new_client strict_transport :: nat ClaudeClient)))"
    by (rule new_client_keys_distinct)
  have n: "name roll_dice_tool = ''roll_dice''" by (simp add: roll_dice_tool_def)
  have once: "createStream (addTool roll_dice_tool roll_dice_handler
        (new_client strict_transport :: nat ClaudeClient)) hi = Inr text_turn"
    by (simp add: createStream_def addTool_def new_client_def strict_transport_def
          roll_dice_tool_def)
  have refusal: "client (new_client strict_transport :: nat ClaudeClient)
        (tools (new_client strict_transport :: nat ClaudeClient)
           @ [roll_dice_tool, roll_dice_tool]) hi =
      Inl (JsError ''tools: Tool names must be unique.'')"
    by (simp add: new_client_def strict_transport_def)
  note inst = duplicate_registration_overwrites_handler[OF refl d,
      of roll_dice_tool roll_dice_handler failing_handler hi 0 example_parse 0]
  note failed = inst[THEN conjunct2, THEN conjunct2, THEN conjunct2, THEN conjunct2,
      THEN conjunct2, rule_format, OF refusal]
  from inst failed refusal d n once
  show ?thesis
    by (simp del: stream.simps add: new_client_def)
qed

text \<open>
  C9, as the claim states it, fails: after two registrations under the name \<open>roll_dice\<close>
  the tool list of the client holds two entries of that name, so the names in it are not
  unique.
\<close>

theorem duplicate_registration_counterexample:
  "map name
     (tools (addTool roll_dice_tool roll_dice_handler
        (addTool roll_dice_tool failing_handler (new_client example_transport)))) =
     [''roll_dice'', ''roll_dice'']
   \<and> \<not> distinct (map name
     (tools (addTool roll_dice_tool roll_dice_handler
        (addTool roll_dice_tool failing_handler (new_client example_transport)))))"
  by (simp add: addTool_def new_client_def roll_dice_tool_def)

section \<open>Tools registered through a schema\<close>

lemma addZodTool_registers:
  assumes "addZodTool n schema handler c = Inr c'"
  shows "map_of (toolHandlers c') n = Some (zodHandler schema handler)"
proof -
  from assms obtain js where
    "c' = addTool \<lparr>name = n, input_schema = js, description = zod_description schema\<rparr>
            (zodHandler schema handler) c"
    by (auto simp: addZodTool_def split: sum.splits)
  then show ?thesis
    using addTool_lookup[of "\<lparr>name = n, input_schema = js,
        description = zod_description schema\<rparr>" "zodHandler schema handler" c]
    by simp
qed

text \<open>
  C10. After \<^verbatim>\<open>addZodTool\<close> the handler registered under the name is the wrapper. On an
  input that the schema rejects the wrapper throws the schema's \<^verbatim>\<open>Error\<close> and leaves the
  world as it was, whatever the user's handler is: the handler is not called. Dispatch
  turns this into the error-flagged result for the block, and a turn made of this block
  goes on to the next turn. On an input that the schema accepts, the wrapper is the
  user's handler applied to the value the schema returned.
\<close>

theorem zod_tool_validates_before_handler:
  assumes "addZodTool n schema handler c = Inr c'"
  shows "map_of (toolHandlers c') n = Some (zodHandler schema handler)
       \<and> (\<forall>inp w v. zod_parse schema inp = Inr v \<longrightarrow>
            zodHandler schema handler inp w = handler v w)
       \<and> (\<forall>inp w m. zod_parse schema inp = Inl m \<longrightarrow>
            zodHandler schema handler inp w = (Rejected (JsError m), w)
          \<and> dispatch (toolHandlers c') [ToolUseBlock i n inp] [] w =
              (Inr [ToolResult i m (Some True)], w)
          \<and> (\<forall>messages response s.
                createStream c' messages = Inr response
              \<and> consume JSON_parse init_asm response = (s, None)
              \<and> finalized s = [ToolUseBlock i n inp] \<longrightarrow>
                stream (Suc fuel) JSON_parse c' messages w =
                  after_turn (yielded s) messages
                    (stream fuel JSON_parse c'
                       (messages @
                          [\<lparr>role = Assistant, content = ResponseBlocks (finalized s)\<rparr>,
                           \<lparr>role = User,
                            content = ResultBlocks [ToolResult i m (Some True)]\<rparr>])
                       w)))"
proof (intro conjI allI impI)
  show reg: "map_of (toolHandlers c') n = Some (zodHandler schema handler)"
    using assms by (rule addZodTool_registers)
  {
    fix inp w v
    assume "zod_parse schema inp = Inr v"
    then show "zodHandler schema handler inp w = handler v w"
      by (simp add: zodHandler_def)
  }
  {
    fix inp w m
    assume bad: "zod_parse schema inp = Inl m"
    then show rej: "zodHandler schema handler inp w = (Rejected (JsError m), w)"
      by (simp add: zodHandler_def)
    with reg show d: "dispatch (toolHandlers c') [ToolUseBlock i n inp] [] w =
              (Inr [ToolResult i m (Some True)], w)"
      by simp
    fix messages response s
    assume turn: "createStream c' messages = Inr response
              \<and> consume JSON_parse init_asm response = (s, None)
              \<and> finalized s = [ToolUseBlock i n inp]"
    with d have d': "dispatch (toolHandlers c') (finalized s) [] w =
              (Inr [ToolResult i m (Some True)], w)"
      by simp
    from turn have t1: "createStream c' messages = Inr response"
      and t2: "consume JSON_parse init_asm response = (s, None)" by simp_all
    from stream_some_results[OF t1 t2 d']
    show "stream (Suc fuel) JSON_parse c' messages w =
                  after_turn (yielded s) messages
                    (stream fuel JSON_parse c'
                       (messages @
                          [\<lparr>role = Assistant, content = ResponseBlocks (finalized s)\<rparr>,
                           \<lparr>role = User,
                            content = ResultBlocks [ToolResult i m (Some True)]\<rparr>])
                       w)"
      by simp
  }
qed

lemma zod_client_example:
  "addZodTool ''roll_dice'' sides_schema logging_handler (new_client example_transport) =
     Inr zod_client"
  by (simp add: addZodTool_def zodToInputSchema_def sides_schema_def zod_client_def)

theorem zod_tool_validates_before_handler_witness:
  "addZodTool ''roll_dice'' sides_schema logging_handler (new_client example_transport) =
     Inr zod_client
   \<and> zod_parse sides_schema (JObject [(''sides'', JNumber 6)]) = Inr 6
   \<and> dispatch (toolHandlers zod_client)
        [ToolUseBlock ''toolu_1'' ''roll_dice'' (JObject [(''sides'', JNumber 6)])] [] [] =
       (Inr [ToolResult ''toolu_1'' ''4'' None], [6])
   \<and> zod_parse sides_schema (JObject [(''sides'', JString ''six'')]) = Inl ''Required''
   \<and> dispatch (toolHandlers zod_client)
        [ToolUseBlock ''toolu_1'' ''roll_dice'' (JObject [(''sides'', JString ''six'')])] [] [] =
       (Inr [ToolResult ''toolu_1'' ''Required'' (Some True)], [])"
proof -
  have ok: "zod_parse sides_schema (JObject [(''sides'', JNumber 6)]) = Inr 6"
    by (simp add: sides_schema_def)
  have bad: "zod_parse sides_schema (JObject [(''sides'', JString ''six'')]) = Inl ''Required''"
    by (simp add: sides_schema_def)
  note inst = zod_tool_validates_before_handler[OF zod_client_example,
      of "''toolu_1''" example_parse 0]
  note accepted = inst[THEN conjunct2, THEN conjunct1, rule_format, OF ok]
  note rejected = inst[THEN conjunct2, THEN conjunct2, rule_format, OF bad]
  from inst[THEN conjunct1] accepted rejected ok bad zod_client_example
  show ?thesis by (simp add: logging_handler_def)
qed

section \<open>Turns of text blocks\<close>

lemma finalized_after_text_block:
  assumes "refs_ok s"
  shows "finalized (s\<lparr>heap := heap s @ [b],
                      pendingBlock := Some (length (heap s)),
                      responseBlocks := responseBlocks s @ [length (heap s)],
                      pendingText := [],
                      yielded := ys\<rparr>) = finalized s @ [b]"
    and "refs_ok (s\<lparr>heap := heap s @ [b],
                    pendingBlock := Some (length (heap s)),
                    responseBlocks := responseBlocks s @ [length (heap s)],
                    pendingText := [],
                    yielded := ys\<rparr>)"
  using assms
  by (auto simp: finalized_def refs_ok_def list_all_iff nth_append less_Suc_eq)

lemma consume_text_blocks:
  assumes "refs_ok s" and "pendingText s = []"
  shows "\<exists>s'. (\<forall>rest. consume JSON_parse s (text_blocks_events bs @ rest) =
                        consume JSON_parse s' rest)
            \<and> refs_ok s' \<and> pendingText s' = []
            \<and> yielded s' = yielded s @ concat (map (\<lambda>b. snd b @ [newline]) bs)
            \<and> finalized s' = finalized s @ map (\<lambda>b. TextBlock (concat (snd b))) bs"
  using assms
proof (induction bs arbitrary: s)
  case Nil
  then show ?case by auto
next
  case (Cons b bs)
  obtain t0 ds where b: "b = (t0, ds)" by (cases b)
  note d = text_deltas_inside[of ds]
  let ?s1 = "s\<lparr>heap := heap s @ [TextBlock (concat ds)],
                pendingBlock := Some (length (heap s)),
                responseBlocks := responseBlocks s @ [length (heap s)],
                pendingText := [],
                yielded := yielded s @ ds @ [newline]\<rparr>"
  have first: "\<And>rest. consume JSON_parse s (text_blocks_events (b # bs) @ rest) =
                 consume JSON_parse ?s1 (text_blocks_events bs @ rest)"
    using consume_text_block[OF d(1), of JSON_parse s t0] d(2,3) Cons.prems(2)
    by (simp add: b)
  note s1 = finalized_after_text_block[OF Cons.prems(1),
      where b = "TextBlock (concat ds)" and ys = "yielded s @ ds @ [newline]"]
  have "pendingText ?s1 = []" by simp
  from Cons.IH[OF s1(2) this] obtain s' where
    s': "\<forall>rest. consume JSON_parse ?s1 (text_blocks_events bs @ rest) =
                  consume JSON_parse s' rest"
        "refs_ok s'" "pendingText s' = []"
        "yielded s' = yielded ?s1 @ concat (map (\<lambda>b. snd b @ [newline]) bs)"
        "finalized s' = finalized ?s1 @ map (\<lambda>b. TextBlock (concat (snd b))) bs"
    by blast
  show ?case
  proof (intro exI[of _ s'] conjI allI)
    fix rest
    show "consume JSON_parse s (text_blocks_events (b # bs) @ rest) =
            consume JSON_parse s' rest"
      using first[of rest] s'(1) by simp
    show "refs_ok s'" by (rule s'(2))
    show "pendingText s' = []" by (rule s'(3))
    show "yielded s' = yielded s @ concat (map (\<lambda>b. snd b @ [newline]) (b # bs))"
      using s'(4) by (simp add: b)
    show "finalized s' = finalized s @ map (\<lambda>b. TextBlock (concat (snd b))) (b # bs)"
      using s'(5) s1(1) by (simp add: b)
  qed
qed

lemma dispatch_text_blocks:
  "dispatch hs (map (\<lambda>b. TextBlock (concat (snd b))) bs) acc w = (Inr acc, w)"
  by (induction bs) simp_all

lemma concat_block_yields:
  "concat (concat (map (\<lambda>b. snd b @ [newline]) bs)) =
     concat (map (\<lambda>b. concat (snd b) @ newline) bs)"
  by (induction bs) simp_all

lemma text_blocks_turn:
  assumes "createStream c messages = Inr (pre @ text_blocks_events bs @ post)"
    and pre: "set pre \<subseteq> {MessageStart, MessageDelta, MessageStop}"
    and post: "set post \<subseteq> {MessageStart, MessageDelta, MessageStop}"
  shows "stream (Suc fuel) JSON_parse c messages w =
           \<lparr>yields = concat (map (\<lambda>b. snd b @ [newline]) bs),
            history = messages
                      @ [\<lparr>role = Assistant,
                          content = ResponseBlocks (map (\<lambda>b. TextBlock (concat (snd b))) bs)\<rparr>],
            requests = [messages], world = w, status = Finished\<rparr>"
proof -
  note p = message_events_silent[OF pre]
  note q = message_events_silent[OF post]
  have init: "pendingText init_asm = []" "yielded init_asm = []" "finalized init_asm = []"
    by (simp_all add: init_asm_def finalized_def)
  from consume_text_blocks[OF refs_ok_init init(1), of JSON_parse bs] obtain s where
    s: "\<forall>rest. consume JSON_parse init_asm (text_blocks_events bs @ rest) =
                  consume JSON_parse s rest"
       "pendingText s = []"
       "yielded s = concat (map (\<lambda>b. snd b @ [newline]) bs)"
       "finalized s = map (\<lambda>b. TextBlock (concat (snd b))) bs"
    using init(2,3) by auto
  have "consume JSON_parse init_asm (pre @ text_blocks_events bs @ post) =
          consume JSON_parse init_asm (text_blocks_events bs @ post)"
    by (simp add: consume_inside[OF p(1)] p(2,3) init_asm_def)
  also have "\<dots> = consume JSON_parse s (post @ [])"
    using s(1) by simp
  also have "\<dots> = (s, None)"
    by (simp only: consume_inside[OF q(1)] q(2,3)) simp
  finally have run:
    "consume JSON_parse init_asm (pre @ text_blocks_events bs @ post) = (s, None)" .
  have "dispatch (toolHandlers c) (finalized s) [] w = (Inr [], w)"
    by (simp add: s(4) dispatch_text_blocks)
  from stream_no_results[OF assms(1) run this, of fuel]
  show ?thesis by (simp add: s(3,4))
qed

text \<open>
  C5, as the code has it. A turn made of text blocks only (any number of them, each a
  block-start, its text deltas and a block-stop, with message events before and after)
  yields, block after block, the deltas of the block and then one newline, so the
  increments concatenate to the finalized text of every block followed by a newline each:
  for a turn of one block, to its finalized text followed by a single trailing newline,
  and for a turn of no block, to nothing. The call ends after this one request, and the
  history has gained exactly one assistant message, holding the text blocks.
\<close>

theorem text_only_turn:
  assumes "createStream c messages = Inr (pre @ text_blocks_events bs @ post)"
    and "set pre \<subseteq> {MessageStart, MessageDelta, MessageStop}"
    and "set post \<subseteq> {MessageStart, MessageDelta, MessageStop}"
  shows "stream (Suc fuel) JSON_parse c messages w =
           \<lparr>yields = concat (map (\<lambda>b. snd b @ [newline]) bs),
            history = messages
                      @ [\<lparr>role = Assistant,
                          content = ResponseBlocks (map (\<lambda>b. TextBlock (concat (snd b))) bs)\<rparr>],
            requests = [messages], world = w, status = Finished\<rparr>
       \<and> concat (yields (stream (Suc fuel) JSON_parse c messages w)) =
           concat (map (\<lambda>b. concat (snd b) @ newline) bs)
       \<and> (\<forall>t0 ds. bs = [(t0, ds)] \<longrightarrow>
            yields (stream (Suc fuel) JSON_parse c messages w) = ds @ [newline]
          \<and> concat (yields (stream (Suc fuel) JSON_parse c messages w)) = concat ds @ newline
          \<and> history (stream (Suc fuel) JSON_parse c messages w) =
              messages @ [\<lparr>role = Assistant,
                            content = ResponseBlocks [TextBlock (concat ds)]\<rparr>])"
proof -
  note run = text_blocks_turn[OF assms, of fuel JSON_parse w]
  show ?thesis
    unfolding run by (simp add: concat_block_yields)
qed

theorem text_only_turn_witness:
  "createStream text_client hi =
     Inr ([MessageStart] @ text_blocks_events [([], [''You rolled '', ''4''])]
          @ [MessageDelta, MessageStop])
   \<and> stream (Suc 0) example_parse text_client hi () =
        \<lparr>yields = [''You rolled '', ''4'', newline],
         history = hi @ [\<lparr>role = Assistant,
                           content = ResponseBlocks [TextBlock ''You rolled 4'']\<rparr>],
         requests = [hi], world = (), status = Finished\<rparr>
   \<and> concat (yields (stream (Suc 0) example_parse text_client hi ())) =
        ''You rolled 4'' @ newline
   \<and> createStream two_text_client hi =
     Inr ([MessageStart] @ text_blocks_events [([], [''a'']), ([], [''b''])]
          @ [MessageDelta, MessageStop])
   \<and> stream (Suc 0) example_parse two_text_client hi () =
        \<lparr>yields = [''a'', newline, ''b'', newline],
         history = hi @ [\<lparr>role = Assistant,
                           content = ResponseBlocks [TextBlock ''a'', TextBlock ''b'']\<rparr>],
         requests = [hi], world = (), status = Finished\<rparr>
   \<and> concat (yields (stream (Suc 0) example_parse two_text_client hi ())) =
        ''a'' @ newline @ ''b'' @ newline"
proof -
  have one: "createStream text_client hi =
     Inr ([MessageStart] @ text_blocks_events [([], [''You rolled '', ''4''])]
          @ [MessageDelta, MessageStop])"
    by (simp add: createStream_def text_client_def new_client_def text_turn_def)
  have two: "createStream two_text_client hi =
     Inr ([MessageStart] @ text_blocks_events [([], [''a'']), ([], [''b''])]
          @ [MessageDelta, MessageStop])"
    by (simp add: createStream_def two_text_client_def new_client_def two_text_turn_def)
  have pre: "set [MessageStart] \<subseteq> {MessageStart, MessageDelta, MessageStop}" by simp
  have post: "set [MessageDelta, MessageStop] \<subseteq> {MessageStart, MessageDelta, MessageStop}"
    by simp
  note first = text_only_turn[OF one pre post, of 0 example_parse "()",
      THEN conjunct1]
  note second = text_only_turn[OF two pre post, of 0 example_parse "()",
      THEN conjunct1]
  from first second one two
  show ?thesis by (simp del: stream.simps)
qed

text \<open>
  C5, as the claim states it, fails. A turn of two text blocks \<open>a\<close> and \<open>b\<close> has no tool-use
  block; its increments have a newline after each block, so they do not concatenate to
  the text followed by a single trailing newline, and the assistant message holds two text
  blocks. A turn with no block at all yields nothing, so no trailing newline either, and
  its assistant message holds no text block.
\<close>

theorem text_only_turn_counterexample:
  "stream (Suc 0) example_parse two_text_client hi () =
     \<lparr>yields = [''a'', newline, ''b'', newline],
      history = hi @ [\<lparr>role = Assistant,
                        content = ResponseBlocks [TextBlock ''a'', TextBlock ''b'']\<rparr>],
      requests = [hi], world = (), status = Finished\<rparr>
   \<and> concat (yields (stream (Suc 0) example_parse two_text_client hi ())) \<noteq>
       ''ab'' @ newline
   \<and> stream (Suc 0) example_parse empty_client hi () =
     \<lparr>yields = [],
      history = hi @ [\<lparr>role = Assistant, content = ResponseBlocks []\<rparr>],
      requests = [hi], world = (), status = Finished\<rparr>
   \<and> concat (yields (stream (Suc 0) example_parse empty_client hi ())) \<noteq> [] @ newline"
  by (simp add: createStream_def two_text_client_def empty_client_def new_client_def
        two_text_turn_def empty_turn_def init_asm_def finalized_def newline_def)

end
